theory Spec2Isabelle
  imports Complex_Main "HOL-Library.Word" "HOL-Library.Sublist"
begin

section \<open>Strings\<close>

text \<open>
  A JavaScript string is a sequence of 16-bit code units. The patterns of the program
  carry no \<open>u\<close> flag, so they work on code units. \<open>js\<close> writes a string given in ASCII.
\<close>

type_synonym jschar = "16 word"
type_synonym jsstring = "jschar list"

definition ch :: "char \<Rightarrow> jschar" where
  "ch c = of_char c"

definition js :: "string \<Rightarrow> jsstring" where
  "js s = map ch s"

text \<open>
  The characters removed by \<open>trim()\<close> and matched by \<open>\s\<close>: white space and line
  terminators. \<open>\w\<close> and \<open>\b\<close> know the ASCII letters, the digits and the underscore.
\<close>

definition isWhiteSpace :: "jschar \<Rightarrow> bool" where
  "isWhiteSpace c \<longleftrightarrow>
     c = 0x09 \<or> c = 0x0A \<or> c = 0x0B \<or> c = 0x0C \<or> c = 0x0D \<or> c = 0x20 \<or> c = 0xA0 \<or>
     c = 0x1680 \<or> (0x2000 \<le> c \<and> c \<le> 0x200A) \<or> c = 0x2028 \<or> c = 0x2029 \<or>
     c = 0x202F \<or> c = 0x205F \<or> c = 0x3000 \<or> c = 0xFEFF"

definition isWordChar :: "jschar \<Rightarrow> bool" where
  "isWordChar c \<longleftrightarrow>
     (0x61 \<le> c \<and> c \<le> 0x7A) \<or> (0x41 \<le> c \<and> c \<le> 0x5A) \<or> (0x30 \<le> c \<and> c \<le> 0x39) \<or> c = 0x5F"

text \<open>
  Under the \<open>i\<close> flag (without \<open>u\<close>) two code units match when their canonical forms
  agree. Every pattern character of the program is ASCII, and no code unit outside ASCII
  has an ASCII canonical form, so comparing the ASCII upper-case forms is exact for them.
\<close>

definition upperASCII :: "jschar \<Rightarrow> jschar" where
  "upperASCII c = (if 0x61 \<le> c \<and> c \<le> 0x7A then c - 0x20 else c)"

definition chr_eq :: "bool \<Rightarrow> jschar \<Rightarrow> jschar \<Rightarrow> bool" where
  "chr_eq i a c = (if i then upperASCII a = upperASCII c else a = c)"

section \<open>Regular expressions\<close>

text \<open>
  The fragment of the pattern language that the program uses: pattern characters,
  character classes (possibly negated), sequence, alternative, greedy repetition, negative
  lookahead, word boundary and start of input.
\<close>

datatype cls = One jschar | Rng jschar jschar | ClsWord | ClsSpace

fun cls_has :: "bool \<Rightarrow> cls \<Rightarrow> jschar \<Rightarrow> bool" where
  "cls_has i (One a) c = chr_eq i a c"
| "cls_has i (Rng lo hi) c = (lo \<le> c \<and> c \<le> hi)"
| "cls_has i ClsWord c = isWordChar c"
| "cls_has i ClsSpace c = isWhiteSpace c"

datatype regex =
    Lit jschar
  | Cls bool "cls list"
  | Seq regex regex
  | Alt regex regex
  | Star regex
  | NLook regex
  | WordB
  | Bol
  | Eps

text \<open>
  A position is the rest of the input together with the code unit before it (\<open>None\<close> at
  the start of the input). \<open>rmatch i r x\<close> lists the positions at which a match of
  \<open>r\<close> starting at \<open>x\<close> can end, in the order in which the backtracking matcher tries
  them; the first \<open>i\<close> is the ignore-case flag. The match that the program sees is the
  head of the list. A repetition takes another round first and gives up a round only
  when that fails; a round that consumes nothing is rejected.
\<close>

type_synonym pos = "jschar option \<times> jsstring"

fun star_aux :: "(pos \<Rightarrow> pos list) \<Rightarrow> pos \<Rightarrow> pos list" where
  "star_aux f (p, s) =
     concat (map (\<lambda>y. if length (snd y) < length s then star_aux f y else []) (f (p, s))) @ [(p, s)]"

definition isWordAt :: "jschar option \<Rightarrow> bool" where
  "isWordAt p = (case p of None \<Rightarrow> False | Some c \<Rightarrow> isWordChar c)"

fun rmatch :: "bool \<Rightarrow> regex \<Rightarrow> pos \<Rightarrow> pos list" where
  "rmatch i (Lit a) (p, s) = (case s of [] \<Rightarrow> [] | c # cs \<Rightarrow> if chr_eq i a c then [(Some c, cs)] else [])"
| "rmatch i (Cls neg cl) (p, s) =
     (case s of [] \<Rightarrow> [] | c # cs \<Rightarrow> if list_ex (\<lambda>k. cls_has i k c) cl \<noteq> neg then [(Some c, cs)] else [])"
| "rmatch i (Seq r1 r2) (p, s) = concat (map (rmatch i r2) (rmatch i r1 (p, s)))"
| "rmatch i (Alt r1 r2) (p, s) = rmatch i r1 (p, s) @ rmatch i r2 (p, s)"
| "rmatch i (Star r) (p, s) = star_aux (rmatch i r) (p, s)"
| "rmatch i (NLook r) (p, s) = (if rmatch i r (p, s) = [] then [(p, s)] else [])"
| "rmatch i WordB (p, s) = (if isWordAt p \<noteq> isWordAt (case s of [] \<Rightarrow> None | c # _ \<Rightarrow> Some c) then [(p, s)] else [])"
| "rmatch i Bol (p, s) = (if p = None then [(p, s)] else [])"
| "rmatch i Eps (p, s) = [(p, s)]"

definition rexec :: "bool \<Rightarrow> regex \<Rightarrow> pos \<Rightarrow> pos option" where
  "rexec i r x = (case rmatch i r x of [] \<Rightarrow> None | y # _ \<Rightarrow> Some y)"

text \<open>
  \<open>s.replace(/r/g, f)\<close>: scan from the left; replace each match by \<open>f\<close> of the matched
  text and go on behind it; after an empty match step over one code unit.
\<close>

fun replace_from :: "bool \<Rightarrow> regex \<Rightarrow> (jsstring \<Rightarrow> jsstring) \<Rightarrow> jschar option \<Rightarrow> jsstring \<Rightarrow> jsstring" where
  "replace_from i r f p [] = (case rexec i r (p, []) of None \<Rightarrow> [] | Some y \<Rightarrow> f [])"
| "replace_from i r f p (c # cs) =
     (case rexec i r (p, c # cs) of
        None \<Rightarrow> c # replace_from i r f (Some c) cs
      | Some y \<Rightarrow>
          if length (snd y) < length (c # cs)
          then f (take (length (c # cs) - length (snd y)) (c # cs)) @ replace_from i r f (fst y) (snd y)
          else f [] @ c # replace_from i r f (Some c) cs)"

definition replace_g :: "bool \<Rightarrow> regex \<Rightarrow> (jsstring \<Rightarrow> jsstring) \<Rightarrow> jsstring \<Rightarrow> jsstring" where
  "replace_g i r f s = replace_from i r f None s"

definition trim :: "jsstring \<Rightarrow> jsstring" where
  "trim s = rev (dropWhile isWhiteSpace (rev (dropWhile isWhiteSpace s)))"

definition seqs :: "regex list \<Rightarrow> regex" where
  "seqs rs = foldr Seq rs Eps"

definition lits :: "string \<Rightarrow> regex" where
  "lits s = seqs (map (\<lambda>c. Lit (ch c)) s)"

definition Plus :: "regex \<Rightarrow> regex" where
  "Plus r = Seq r (Star r)"

section \<open>sanitizeText\<close>

definition LT :: jschar where "LT = ch CHR ''<''"
definition GT :: jschar where "GT = ch CHR ''>''"
definition DQ :: jschar where "DQ = ch CHR 0x22"
definition SQ :: jschar where "SQ = ch CHR 0x27"
definition AMP :: jschar where "AMP = ch CHR ''&''"
definition SP :: jschar where "SP = ch CHR '' ''"

text \<open>
  The patterns of sanitizeText, in the order of the source. \<open>block_re name\<close> is
  \<open><name\b[^<]*(?:(?!<\/name>)<[^<]*)*<\/name>\<close> (script, style, iframe, object, embed),
  \<open>void_re name\<close> is \<open><name\b[^>]*>\<close> (link, meta), \<open>handler_re\<close> is
  \<open>on\w+\s*=\s*["'][^"']*["']\<close>, \<open>scheme_re name\<close> is \<open>name\s*:\<close>, \<open>tag_re\<close> is
  \<open><[^>]*>\<close>, \<open>special_re\<close> is \<open>[<>"'&]\<close>, \<open>spaces_re\<close> is \<open>\s+\<close> and \<open>control_re\<close> is
  \<open>[\x00-\x08\x0B\x0C\x0E-\x1F\x7F]\<close>. The first eleven carry the flags \<open>gi\<close>, the others \<open>g\<close>.
\<close>

definition block_re :: "string \<Rightarrow> regex" where
  "block_re name =
     seqs [lits (''<'' @ name), WordB, Star (Cls True [One LT]),
           Star (seqs [NLook (lits (''</'' @ name @ ''>'')), Lit LT, Star (Cls True [One LT])]),
           lits (''</'' @ name @ ''>'')]"

definition void_re :: "string \<Rightarrow> regex" where
  "void_re name = seqs [lits (''<'' @ name), WordB, Star (Cls True [One GT]), Lit GT]"

definition handler_re :: regex where
  "handler_re =
     seqs [lits ''on'', Plus (Cls False [ClsWord]), Star (Cls False [ClsSpace]), Lit (ch CHR ''=''),
           Star (Cls False [ClsSpace]), Cls False [One DQ, One SQ], Star (Cls True [One DQ, One SQ]),
           Cls False [One DQ, One SQ]]"

definition scheme_re :: "string \<Rightarrow> regex" where
  "scheme_re name = seqs [lits name, Star (Cls False [ClsSpace]), Lit (ch CHR '':'')]"

definition tag_re :: regex where
  "tag_re = seqs [Lit LT, Star (Cls True [One GT]), Lit GT]"

definition special_re :: regex where
  "special_re = Cls False [One LT, One GT, One DQ, One SQ, One AMP]"

definition spaces_re :: regex where
  "spaces_re = Plus (Cls False [ClsSpace])"

definition control_re :: regex where
  "control_re = Cls False [Rng 0x00 0x08, One 0x0B, One 0x0C, Rng 0x0E 0x1F, One 0x7F]"

definition isControl :: "jschar \<Rightarrow> bool" where
  "isControl c \<longleftrightarrow> c \<le> 0x08 \<or> c = 0x0B \<or> c = 0x0C \<or> (0x0E \<le> c \<and> c \<le> 0x1F) \<or> c = 0x7F"

definition escapeMap :: "jsstring \<Rightarrow> jsstring" where
  "escapeMap m =
     (if m = [LT] then js ''&lt;''
      else if m = [GT] then js ''&gt;''
      else if m = [DQ] then js ''&quot;''
      else if m = [SQ] then js ''&#x27;''
      else if m = [AMP] then js ''&amp;''
      else js ''undefined'')"

definition del :: "jsstring \<Rightarrow> jsstring" where
  "del m = []"

definition strip_markup :: "jsstring \<Rightarrow> jsstring" where
  "strip_markup =
     replace_g False special_re escapeMap
     \<circ> replace_g False tag_re del
     \<circ> replace_g True (scheme_re ''vbscript'') del
     \<circ> replace_g True (scheme_re ''data'') del
     \<circ> replace_g True (scheme_re ''javascript'') del
     \<circ> replace_g True handler_re del
     \<circ> replace_g True (void_re ''meta'') del
     \<circ> replace_g True (void_re ''link'') del
     \<circ> replace_g True (block_re ''embed'') del
     \<circ> replace_g True (block_re ''object'') del
     \<circ> replace_g True (block_re ''iframe'') del
     \<circ> replace_g True (block_re ''style'') del
     \<circ> replace_g True (block_re ''script'') del"

text \<open>
  \<open>remove_markup\<close> is the chain of \<open>strip_markup\<close> without its last step, the escaping;
  \<open>entity\<close> is the HTML entity that stands for one of the five special characters, and
  any other code unit itself.
\<close>

definition remove_markup :: "jsstring \<Rightarrow> jsstring" where
  "remove_markup =
     replace_g False tag_re del
     \<circ> replace_g True (scheme_re ''vbscript'') del
     \<circ> replace_g True (scheme_re ''data'') del
     \<circ> replace_g True (scheme_re ''javascript'') del
     \<circ> replace_g True handler_re del
     \<circ> replace_g True (void_re ''meta'') del
     \<circ> replace_g True (void_re ''link'') del
     \<circ> replace_g True (block_re ''embed'') del
     \<circ> replace_g True (block_re ''object'') del
     \<circ> replace_g True (block_re ''iframe'') del
     \<circ> replace_g True (block_re ''style'') del
     \<circ> replace_g True (block_re ''script'') del"

definition entity :: "jschar \<Rightarrow> jsstring" where
  "entity c =
     (if c = LT then js ''&lt;''
      else if c = GT then js ''&gt;''
      else if c = DQ then js ''&quot;''
      else if c = SQ then js ''&#x27;''
      else if c = AMP then js ''&amp;''
      else [c])"

definition visible :: "jsstring \<Rightarrow> jsstring" where
  "visible s = filter (\<lambda>c. \<not> isWhiteSpace c \<and> \<not> isControl c) s"

definition sanitize_string :: "jsstring \<Rightarrow> jsstring" where
  "sanitize_string text =
     replace_g False control_re del
       (trim (replace_g False spaces_re (\<lambda>m. js '' '') (strip_markup (trim text))))"

section \<open>Other string operations\<close>

text \<open>
  \<open>s.replace(/r/, f)\<close> without the \<open>g\<close> flag replaces the first match only;
  \<open>s.split(/r/)\<close> cuts at every non-empty match and, at an empty one, between two code
  units; \<open>startsWith\<close>, \<open>endsWith\<close> and \<open>includes\<close> are the methods of the same names.
\<close>

fun replace_first_from :: "bool \<Rightarrow> regex \<Rightarrow> (jsstring \<Rightarrow> jsstring) \<Rightarrow> jschar option \<Rightarrow> jsstring \<Rightarrow> jsstring" where
  "replace_first_from i r f p [] = (case rexec i r (p, []) of None \<Rightarrow> [] | Some y \<Rightarrow> f [])"
| "replace_first_from i r f p (c # cs) =
     (case rexec i r (p, c # cs) of
        None \<Rightarrow> c # replace_first_from i r f (Some c) cs
      | Some y \<Rightarrow>
          f (take (length (c # cs) - length (snd y)) (c # cs))
            @ drop (length (c # cs) - length (snd y)) (c # cs))"

definition replace_1 :: "bool \<Rightarrow> regex \<Rightarrow> (jsstring \<Rightarrow> jsstring) \<Rightarrow> jsstring \<Rightarrow> jsstring" where
  "replace_1 i r f s = replace_first_from i r f None s"

fun split_from :: "regex \<Rightarrow> jschar option \<Rightarrow> jsstring \<Rightarrow> jsstring \<Rightarrow> jsstring list" where
  "split_from r p cur [] = [rev cur]"
| "split_from r p cur (c # cs) =
     (case rexec False r (p, c # cs) of
        None \<Rightarrow> split_from r (Some c) (c # cur) cs
      | Some y \<Rightarrow>
          if length (snd y) < length (c # cs) then rev cur # split_from r (fst y) [] (snd y)
          else if cur = [] then split_from r (Some c) [c] cs
          else rev cur # split_from r (Some c) [c] cs)"

definition split :: "regex \<Rightarrow> jsstring \<Rightarrow> jsstring list" where
  "split r s =
     (if s = [] then (if rexec False r (None, []) = None then [[]] else [])
      else split_from r None [] s)"

definition startsWith :: "jsstring \<Rightarrow> jsstring \<Rightarrow> bool" where
  "startsWith s pre = (take (length pre) s = pre)"

definition endsWith :: "jsstring \<Rightarrow> jsstring \<Rightarrow> bool" where
  "endsWith s suf = (length suf \<le> length s \<and> drop (length s - length suf) s = suf)"

fun includes_str :: "jsstring \<Rightarrow> jsstring \<Rightarrow> bool" where
  "includes_str [] sub = (sub = [])"
| "includes_str (c # cs) sub = (startsWith (c # cs) sub \<or> includes_str cs sub)"






section \<open>Values, tasks and the state of the application\<close>

text \<open>
  The values that JSON.parse can return, and \<open>undefined\<close> for a missing property. Of a
  number only the test against zero is observed. An object lists each of its keys once.
  \<open>truthy\<close> is the coercion to a boolean, \<open>isObject\<close> is \<open>typeof v === 'object'\<close>.
\<close>

datatype jsvalue =
    JUndefined
  | JNull
  | JBool bool
  | JNum real
  | JStr jsstring
  | JArr "jsvalue list"
  | JObj "(jsstring \<times> jsvalue) list"

fun truthy :: "jsvalue \<Rightarrow> bool" where
  "truthy JUndefined = False"
| "truthy JNull = False"
| "truthy (JBool b) = b"
| "truthy (JNum x) = (x \<noteq> 0)"
| "truthy (JStr s) = (s \<noteq> [])"
| "truthy (JArr xs) = True"
| "truthy (JObj kvs) = True"

fun isObject :: "jsvalue \<Rightarrow> bool" where
  "isObject JNull = True"
| "isObject (JArr xs) = True"
| "isObject (JObj kvs) = True"
| "isObject v = False"

fun getProp :: "jsvalue \<Rightarrow> jsstring \<Rightarrow> jsvalue" where
  "getProp (JObj kvs) k = (case map_of kvs k of None \<Rightarrow> JUndefined | Some v \<Rightarrow> v)"
| "getProp v k = JUndefined"

fun sanitizeText :: "jsvalue \<Rightarrow> jsstring" where
  "sanitizeText (JStr text) = sanitize_string text"
| "sanitizeText v = []"

record todo =
  todo_text :: jsstring
  todo_done :: bool

text \<open>
  The messages handed to showError. The host supplies JSON.parse (\<open>None\<close> when it throws),
  the answer of localStorage.setItem (whether it throws for want of space) and
  String.prototype.toLowerCase. The state holds the task list, the unsaved flag, the
  auto-save checkbox, the local storage and the messages shown so far.
\<close>

datatype message =
    EmptyTask | TooLong | Duplicate | Capacity
  | DataTooLarge | SaveFailed | LoadFailed
  | FileTooLarge | NotTextFile | TooManyTasks | NoValidTasks | Imported nat
  | ProcessingError | ReadError

record host =
  JSON_parse :: "jsstring \<Rightarrow> jsvalue option"
  quota_exceeded :: "(jsstring \<rightharpoonup> jsstring) \<Rightarrow> jsstring \<Rightarrow> jsstring \<Rightarrow> bool"
  toLowerCase :: "jsstring \<Rightarrow> jsstring"

record app =
  todos :: "todo list"
  unsavedChanges :: bool
  autosave :: bool
  localStorage :: "jsstring \<rightharpoonup> jsstring"
  shown :: "message list"

text \<open>The invariant of the data model: no two texts equal up to case, at most 1000 tasks.\<close>

definition tasks_invariant :: "host \<Rightarrow> todo list \<Rightarrow> bool" where
  "tasks_invariant h ts \<longleftrightarrow> distinct (map (\<lambda>t. toLowerCase h (todo_text t)) ts) \<and> length ts \<le> 1000"

definition STORAGE_KEY :: jsstring where
  "STORAGE_KEY = js ''todo-autosave-v1''"

definition MIN_LENGTH :: nat where "MIN_LENGTH = 1"
definition MAX_LENGTH :: nat where "MAX_LENGTH = 100"
definition MAX_TASKS :: nat where "MAX_TASKS = 1000"
definition ALLOWED_FILE_SIZE :: nat where "ALLOWED_FILE_SIZE = 1024 * 1024"

definition showError :: "message \<Rightarrow> app \<Rightarrow> app" where
  "showError m a = a\<lparr>shown := shown a @ [m]\<rparr>"

definition validateTask :: "host \<Rightarrow> app \<Rightarrow> jsvalue \<Rightarrow> message + jsstring" where
  "validateTask h a txt =
     (let sanitized = sanitizeText txt in
      if sanitized = [] \<or> length sanitized < MIN_LENGTH then Inl EmptyTask
      else if length sanitized > MAX_LENGTH then Inl TooLong
      else if list_ex (\<lambda>t. toLowerCase h (todo_text t) = toLowerCase h sanitized) (todos a) then Inl Duplicate
      else if length (todos a) \<ge> MAX_TASKS then Inl Capacity
      else Inr sanitized)"

section \<open>The store\<close>

text \<open>
  JSON.stringify on a list of tasks: an array of objects with the keys \<open>text\<close> and \<open>done\<close>
  in this order, strings quoted as QuoteJSONString does (short escapes, \<open>\u\<close> escapes for
  the other control characters and for lone surrogates). \<open>todos_value\<close> is the value that
  this text denotes.
\<close>

definition hexDigit :: "nat \<Rightarrow> jschar" where
  "hexDigit n = js ''0123456789abcdef'' ! (n mod 16)"

definition unicodeEscape :: "jschar \<Rightarrow> jsstring" where
  "unicodeEscape c =
     [0x5C, ch CHR ''u'', hexDigit (unat c div 4096), hexDigit (unat c div 256),
      hexDigit (unat c div 16), hexDigit (unat c)]"

definition isLeadingSurrogate :: "jschar \<Rightarrow> bool" where
  "isLeadingSurrogate c \<longleftrightarrow> 0xD800 \<le> c \<and> c \<le> 0xDBFF"

definition isTrailingSurrogate :: "jschar \<Rightarrow> bool" where
  "isTrailingSurrogate c \<longleftrightarrow> 0xDC00 \<le> c \<and> c \<le> 0xDFFF"

definition quoteUnit :: "jschar \<Rightarrow> jsstring" where
  "quoteUnit c =
     (if c = 0x08 then [0x5C, ch CHR ''b'']
      else if c = 0x09 then [0x5C, ch CHR ''t'']
      else if c = 0x0A then [0x5C, ch CHR ''n'']
      else if c = 0x0C then [0x5C, ch CHR ''f'']
      else if c = 0x0D then [0x5C, ch CHR ''r'']
      else if c = 0x22 then [0x5C, 0x22]
      else if c = 0x5C then [0x5C, 0x5C]
      else if c < 0x20 \<or> isLeadingSurrogate c \<or> isTrailingSurrogate c then unicodeEscape c
      else [c])"

fun quoteBody :: "jsstring \<Rightarrow> jsstring" where
  "quoteBody [] = []"
| "quoteBody [c] = quoteUnit c"
| "quoteBody (c # d # cs) =
     (if isLeadingSurrogate c \<and> isTrailingSurrogate d then c # d # quoteBody cs
      else quoteUnit c @ quoteBody (d # cs))"

definition quoteJSONString :: "jsstring \<Rightarrow> jsstring" where
  "quoteJSONString s = [0x22] @ quoteBody s @ [0x22]"

definition stringify_todo :: "todo \<Rightarrow> jsstring" where
  "stringify_todo t =
     js ''{'' @ quoteJSONString (js ''text'') @ js '':'' @ quoteJSONString (todo_text t) @ js '','' @
     quoteJSONString (js ''done'') @ js '':'' @ (if todo_done t then js ''true'' else js ''false'') @ js ''}''"

fun join :: "jsstring \<Rightarrow> jsstring list \<Rightarrow> jsstring" where
  "join sep [] = []"
| "join sep [x] = x"
| "join sep (x # y # ys) = x @ sep @ join sep (y # ys)"

definition JSON_stringify :: "todo list \<Rightarrow> jsstring" where
  "JSON_stringify ts = js ''['' @ join (js '','') (map stringify_todo ts) @ js '']''"

definition todo_value :: "todo \<Rightarrow> jsvalue" where
  "todo_value t = JObj [(js ''text'', JStr (todo_text t)), (js ''done'', JBool (todo_done t))]"

definition todos_value :: "todo list \<Rightarrow> jsvalue" where
  "todos_value ts = JArr (map todo_value ts)"

datatype exn = QuotaExceededError | TypeError

definition setItem :: "host \<Rightarrow> (jsstring \<rightharpoonup> jsstring) \<Rightarrow> jsstring \<Rightarrow> jsstring \<Rightarrow> exn + (jsstring \<rightharpoonup> jsstring)" where
  "setItem h st k v = (if quota_exceeded h st k v then Inl QuotaExceededError else Inr (st(k \<mapsto> v)))"

definition saveToLocal :: "host \<Rightarrow> app \<Rightarrow> bool \<times> app" where
  "saveToLocal h a =
     (if autosave a then
        (let dataString = JSON_stringify (todos a) in
         if length dataString > 5 * 1024 * 1024 then (False, showError DataTooLarge a)
         else (case setItem h (localStorage a) STORAGE_KEY dataString of
                 Inl e \<Rightarrow> (False, showError SaveFailed a)
               | Inr st \<Rightarrow> (True, a\<lparr>localStorage := st, unsavedChanges := False\<rparr>)))
      else (True, a))"

fun isArray :: "jsvalue \<Rightarrow> bool" where
  "isArray (JArr xs) = True"
| "isArray v = False"

fun elements :: "jsvalue \<Rightarrow> jsvalue list" where
  "elements (JArr xs) = xs"
| "elements v = []"

definition coerce :: "jsvalue \<Rightarrow> todo" where
  "coerce item =
     \<lparr>todo_text = sanitizeText (if truthy (getProp item (js ''text'')) then getProp item (js ''text'') else JStr []),
      todo_done = truthy (getProp item (js ''done''))\<rparr>"

definition loadFromLocal :: "host \<Rightarrow> app \<Rightarrow> todo list \<times> app" where
  "loadFromLocal h a =
     (case localStorage a STORAGE_KEY of
        None \<Rightarrow> ([], a)
      | Some data \<Rightarrow>
          if data = [] then ([], a)
          else (case JSON_parse h data of
                  None \<Rightarrow> ([], showError LoadFailed a)
                | Some parsed \<Rightarrow>
                    if \<not> isArray parsed then ([], showError LoadFailed a)
                    else (take MAX_TASKS
                            (filter (\<lambda>item. length (todo_text item) > 0)
                               (map coerce
                                  (filter (\<lambda>item. truthy item \<and> isObject item) (elements parsed)))),
                          a)))"

section \<open>The operations on the task list\<close>

text \<open>
  \<open>loadTodos\<close> is the assignment \<open>todos = loadFromLocal()\<close> of the start-up code;
  \<open>deleteTask\<close> and \<open>toggleTask\<close> are the click handlers that render attaches to the
  row \<open>idx\<close>. Reading \<open>todos[idx].done\<close> beyond the end of the list raises a TypeError.
\<close>

definition loadTodos :: "host \<Rightarrow> app \<Rightarrow> app" where
  "loadTodos h a = (case loadFromLocal h a of (ts, a') \<Rightarrow> a'\<lparr>todos := ts\<rparr>)"

definition addTask :: "host \<Rightarrow> jsvalue \<Rightarrow> app \<Rightarrow> app" where
  "addTask h input a =
     (case validateTask h a input of
        Inl e \<Rightarrow> showError e a
      | Inr sanitized \<Rightarrow>
          (case saveToLocal h (a\<lparr>todos := todos a @ [\<lparr>todo_text = sanitized, todo_done = False\<rparr>],
                                 unsavedChanges := True\<rparr>) of
             (ok, a') \<Rightarrow> if \<not> ok then a'\<lparr>todos := butlast (todos a')\<rparr> else a'))"

definition deleteTask :: "host \<Rightarrow> nat \<Rightarrow> app \<Rightarrow> app" where
  "deleteTask h idx a =
     snd (saveToLocal h (a\<lparr>todos := take idx (todos a) @ drop (Suc idx) (todos a), unsavedChanges := True\<rparr>))"

definition toggleTask :: "host \<Rightarrow> nat \<Rightarrow> app \<Rightarrow> exn + app" where
  "toggleTask h idx a =
     (if idx < length (todos a)
      then Inr (snd (saveToLocal h
                  (a\<lparr>todos := (todos a)[idx := (todos a ! idx)\<lparr>todo_done := \<not> todo_done (todos a ! idx)\<rparr>],
                     unsavedChanges := True\<rparr>)))
      else Inl TypeError)"

section \<open>Import\<close>

text \<open>
  A file as importTasks sees it: size, MIME type, name, and the text that the FileReader
  delivers (\<open>None\<close> when reading fails). \<open>onload\<close> is the handler run on that text.
\<close>

record jsfile =
  file_size :: nat
  file_type :: jsstring
  file_name :: jsstring
  file_content :: "jsstring option"

definition Opt :: "regex \<Rightarrow> regex" where
  "Opt r = Alt r Eps"

definition newline_re :: regex where
  "newline_re = seqs [Opt (Lit 0x0D), Lit 0x0A]"

definition marker_re :: regex where
  "marker_re =
     seqs [Bol, Lit (ch CHR ''[''), Cls False [One (ch CHR ''x''), One (ch CHR ''X''), One (ch CHR '' '')],
           Lit (ch CHR '']''), Star (Cls False [ClsSpace])]"

definition import_line :: "jsstring \<Rightarrow> todo option" where
  "import_line line =
     (let sanitizedLine = sanitizeText (JStr line) in
      if sanitizedLine = [] then None
      else
        (let isDone = startsWith sanitizedLine (js ''[x]'') \<or> startsWith sanitizedLine (js ''[X]'');
             txt = sanitizeText (JStr (replace_1 False marker_re del sanitizedLine))
         in if txt \<noteq> [] \<and> length txt \<le> MAX_LENGTH
            then Some \<lparr>todo_text = txt, todo_done = isDone\<rparr> else None))"

definition nonblank_lines :: "jsstring \<Rightarrow> jsstring list" where
  "nonblank_lines content = filter (\<lambda>line. trim line \<noteq> []) (split newline_re content)"

definition onload :: "host \<Rightarrow> jsstring \<Rightarrow> app \<Rightarrow> app" where
  "onload h content a =
     (let lns = nonblank_lines content in
      if length lns > MAX_TASKS then showError TooManyTasks a
      else
        (let newTodos = List.map_filter import_line lns in
         if length newTodos = 0 then showError NoValidTasks a
         else showError (Imported (length newTodos))
                (snd (saveToLocal h (a\<lparr>todos := newTodos, unsavedChanges := True\<rparr>)))))"

definition importTasks :: "host \<Rightarrow> jsfile option \<Rightarrow> app \<Rightarrow> app" where
  "importTasks h fo a =
     (case fo of
        None \<Rightarrow> a
      | Some f \<Rightarrow>
          if file_size f > ALLOWED_FILE_SIZE then showError FileTooLarge a
          else if \<not> includes_str (file_type f) (js ''text'') \<and> \<not> endsWith (file_name f) (js ''.txt'')
          then showError NotTextFile a
          else (case file_content f of
                  None \<Rightarrow> showError ReadError a
                | Some content \<Rightarrow> onload h content a))"

section \<open>Concrete hosts, states and inputs for the examples\<close>

text \<open>
  \<open>host0\<close> is a host whose storage is never full, whose toLowerCase maps the ASCII
  letters, and whose JSON.parse rejects its input: it stands for JSON.parse only where the
  text is not JSON or where JSON.parse is not reached, and is overridden at a given blob
  otherwise. \<open>jsq\<close> writes a string in which the backquote stands for the double quote.
\<close>

definition lowerASCII :: "jschar \<Rightarrow> jschar" where
  "lowerASCII c = (if 0x41 \<le> c \<and> c \<le> 0x5A then c + 0x20 else c)"

definition jsq :: "string \<Rightarrow> jsstring" where
  "jsq s = map (\<lambda>c. if c = CHR ''`'' then 0x22 else ch c) s"

definition host0 :: host where
  "host0 = \<lparr>JSON_parse = (\<lambda>d. None), quota_exceeded = (\<lambda>st k v. False), toLowerCase = map lowerASCII\<rparr>"

definition app0 :: app where
  "app0 = \<lparr>todos = [], unsavedChanges = False, autosave = True, localStorage = Map.empty, shown = []\<rparr>"

definition app1 :: app where
  "app1 = app0\<lparr>todos := [\<lparr>todo_text = js ''Buy milk'', todo_done = False\<rparr>]\<rparr>"

definition blob_items :: "jsvalue list" where
  "blob_items =
     [JNum 1,
      JObj [(js ''text'', JStr (js '' a&b '')), (js ''done'', JNum 1)],
      JObj [(js ''text'', JNum 5)],
      JNull,
      JObj [(js ''text'', JStr (js ''<b></b>'')), (js ''done'', JBool True)],
      JObj [(js ''text'', JStr (js ''Walk dog''))]]"

definition blob_text :: jsstring where
  "blob_text =
     jsq ''[1,{`text`:` a&b `,`done`:1},{`text`:5},null,{`text`:`<b></b>`,`done`:true},{`text`:`Walk dog`}]''"

definition example_file :: jsfile where
  "example_file =
     \<lparr>file_size = 26, file_type = js ''text/plain'', file_name = js ''tasks.txt'',
      file_content = Some (js ''[x] Buy milk'' @ [0x0A] @ js ''[ ] Walk dog'' @ [0x0A])\<rparr>"

definition dup_content :: jsstring where
  "dup_content = js ''a'' @ [0x0A] @ js ''A''"

definition dup_file :: jsfile where
  "dup_file =
     \<lparr>file_size = 3, file_type = js ''text/plain'', file_name = js ''dup.txt'',
      file_content = Some dup_content\<rparr>"

definition dup_todos :: "todo list" where
  "dup_todos = [\<lparr>todo_text = js ''a'', todo_done = False\<rparr>, \<lparr>todo_text = js ''a'', todo_done = True\<rparr>]"

definition amp_todos :: "todo list" where
  "amp_todos = [\<lparr>todo_text = js ''&amp;'', todo_done = False\<rparr>]"

text \<open>A task as loadFromLocal returns it: its text sanitized once more.\<close>

definition resanitize :: "todo \<Rightarrow> todo" where
  "resanitize t = t\<lparr>todo_text := sanitize_string (todo_text t)\<rparr>"



definition unsafe_text :: jsstring where
  "unsafe_text = jsq ''<a href=`x`>it'' @ [SQ] @ js ''s 1 > 0 <'' @ [0x01, 0x7F] @ js '' ok''"

section \<open>Basic facts\<close>

lemma showError_todos [simp]: "todos (showError m a) = todos a"
  by (simp add: showError_def)

lemma saveToLocal_todos [simp]: "todos (snd (saveToLocal h a)) = todos a"
  by (simp add: saveToLocal_def Let_def showError_def split: sum.splits)

section \<open>The matcher only moves forward\<close>

lemma star_aux_suffix:
  "(\<forall>x y. y \<in> set (f x) \<longrightarrow> suffix (snd y) (snd x)) \<Longrightarrow> y \<in> set (star_aux f x)
     \<Longrightarrow> suffix (snd y) (snd x)"
proof (induction f x arbitrary: y rule: star_aux.induct)
  case (1 f p s)
  from "1.prems"(2) consider "y = (p, s)"
    | z where "z \<in> set (f (p, s))" "length (snd z) < length s" "y \<in> set (star_aux f z)"
    by (auto split: if_splits)
  then show ?case
  proof cases
    case 1
    then show ?thesis by simp
  next
    case 2
    from "1.IH" [OF 2(1) 2(2) "1.prems"(1) 2(3)] have "suffix (snd y) (snd z)" .
    moreover from "1.prems"(1) 2(1) have "suffix (snd z) s" by fastforce
    ultimately show ?thesis by (auto intro: suffix_order.trans)
  qed
qed

lemma rmatch_suffix: "y \<in> set (rmatch i r x) \<Longrightarrow> suffix (snd y) (snd x)"
proof (induction r arbitrary: x y)
  case (Lit a)
  then show ?case
    by (cases x) (auto split: list.splits if_splits intro: suffix_ConsI)
next
  case (Cls neg cl)
  then show ?case
    by (cases x) (auto split: list.splits if_splits intro: suffix_ConsI)
next
  case (Seq r1 r2)
  obtain p s where x: "x = (p, s)" by (cases x)
  from Seq.prems x obtain z where z: "z \<in> set (rmatch i r1 (p, s))" "y \<in> set (rmatch i r2 z)"
    by auto
  from Seq.IH(1) [OF z(1)] Seq.IH(2) [OF z(2)] show ?case
    using x by (auto intro: suffix_order.trans)
next
  case (Alt r1 r2)
  obtain p s where x: "x = (p, s)" by (cases x)
  from Alt.prems x have "y \<in> set (rmatch i r1 x) \<or> y \<in> set (rmatch i r2 x)"
    by auto
  then show ?case
    using Alt.IH by blast
next
  case (Star r)
  obtain p s where x: "x = (p, s)" by (cases x)
  have "\<forall>x y. y \<in> set (rmatch i r x) \<longrightarrow> suffix (snd y) (snd x)"
    using Star.IH by blast
  moreover from Star.prems x have "y \<in> set (star_aux (rmatch i r) x)"
    by (simp del: star_aux.simps)
  ultimately show ?case
    by (rule star_aux_suffix)
next
  case (NLook r)
  then show ?case by (cases x) (auto split: if_splits)
next
  case WordB
  then show ?case by (cases x) (auto split: if_splits)
next
  case Bol
  then show ?case by (cases x) (auto split: if_splits)
next
  case Eps
  then show ?case by (cases x) auto
qed

lemma rexec_suffix: "rexec i r x = Some y \<Longrightarrow> suffix (snd y) (snd x)"
proof -
  assume "rexec i r x = Some y"
  then have "y \<in> set (rmatch i r x)"
    by (auto simp: rexec_def split: list.splits)
  then show ?thesis by (rule rmatch_suffix)
qed

lemma replace_from_chars:
  "(\<forall>m. set (f m) \<subseteq> A) \<Longrightarrow> set (replace_from i r f p s) \<subseteq> set s \<union> A"
proof (induction i r f p s rule: replace_from.induct)
  case (1 i r f p)
  then show ?case by (auto split: option.splits)
next
  case (2 i r f p c cs)
  show ?case
  proof (cases "rexec i r (p, c # cs)")
    case None
    with 2 show ?thesis by auto
  next
    case (Some y)
    have sub: "set (snd y) \<subseteq> set (c # cs)"
      using set_mono_suffix [OF rexec_suffix [OF Some]] by simp
    show ?thesis
    proof (cases "length (snd y) < length (c # cs)")
      case True
      from "2.IH"(2) [OF Some True "2.prems"]
      have "set (replace_from i r f (fst y) (snd y)) \<subseteq> set (snd y) \<union> A" .
      with sub "2.prems" Some True show ?thesis
        by (auto simp: subset_iff)
    next
      case False
      from "2.IH"(3) [OF Some False "2.prems"]
      have "set (replace_from i r f (Some c) cs) \<subseteq> set cs \<union> A" .
      with "2.prems" Some False show ?thesis
        by (auto simp: subset_iff)
    qed
  qed
qed

lemma replace_from_class:
  "replace_from i (Cls neg cl) f p s
     = concat (map (\<lambda>c. if list_ex (\<lambda>k. cls_has i k c) cl \<noteq> neg then f [c] else [c]) s)"
  by (induction s arbitrary: p) (simp_all add: rexec_def)

section \<open>Where a pattern cannot match\<close>









section \<open>Greedy repetition of a character class\<close>

lemma star_class_first:
  "\<exists>q ys. rmatch i (Star (Cls neg cl)) (p, s)
      = (q, dropWhile (\<lambda>c. list_ex (\<lambda>k. cls_has i k c) cl \<noteq> neg) s) # ys"
proof (induction s arbitrary: p)
  case Nil
  show ?case by simp
next
  case (Cons c cs)
  show ?case
  proof (cases "list_ex (\<lambda>k. cls_has i k c) cl \<noteq> neg")
    case True
    from Cons [of "Some c"] obtain q ys where
      "star_aux (rmatch i (Cls neg cl)) (Some c, cs)
         = (q, dropWhile (\<lambda>c. list_ex (\<lambda>k. cls_has i k c) cl \<noteq> neg) cs) # ys"
      by (auto simp del: star_aux.simps)
    with True show ?thesis by simp
  next
    case False
    then show ?thesis by simp
  qed
qed

lemma rexec_plus_class_Nil: "rexec i (Plus (Cls neg cl)) (p, []) = None"
  by (simp add: rexec_def Plus_def)

lemma rexec_plus_class_None:
  "\<not> (list_ex (\<lambda>k. cls_has i k c) cl \<noteq> neg) \<Longrightarrow> rexec i (Plus (Cls neg cl)) (p, c # cs) = None"
  by (simp add: rexec_def Plus_def)

lemma rexec_plus_class_Some:
  assumes "list_ex (\<lambda>k. cls_has i k c) cl \<noteq> neg"
  shows "\<exists>q. rexec i (Plus (Cls neg cl)) (p, c # cs)
           = Some (q, dropWhile (\<lambda>c. list_ex (\<lambda>k. cls_has i k c) cl \<noteq> neg) cs)"
proof -
  from star_class_first [of i neg cl "Some c" cs] obtain q ys where
    "rmatch i (Star (Cls neg cl)) (Some c, cs)
       = (q, dropWhile (\<lambda>c. list_ex (\<lambda>k. cls_has i k c) cl \<noteq> neg) cs) # ys"
    by blast
  with assms show ?thesis
    by (simp add: rexec_def Plus_def del: rmatch.simps(5))
qed

lemma rexec_spaces:
  "rexec False spaces_re (p, []) = None"
  "\<not> isWhiteSpace c \<Longrightarrow> rexec False spaces_re (p, c # cs) = None"
  "isWhiteSpace c \<Longrightarrow> \<exists>q. rexec False spaces_re (p, c # cs) = Some (q, dropWhile isWhiteSpace cs)"
  using rexec_plus_class_Nil [of False False "[ClsSpace]" p]
    rexec_plus_class_None [of False c "[ClsSpace]" False p cs]
    rexec_plus_class_Some [of False c "[ClsSpace]" False p cs]
  by (simp_all add: spaces_re_def)

section \<open>What the sanitizer's output cannot contain\<close>

lemma escapeMap_chars:
  "LT \<notin> set (escapeMap m)" "GT \<notin> set (escapeMap m)" "DQ \<notin> set (escapeMap m)" "SQ \<notin> set (escapeMap m)"
  by (simp_all add: escapeMap_def js_def ch_def LT_def GT_def DQ_def SQ_def)

lemma escape_step:
  "c \<in> set (replace_g False special_re escapeMap s) \<Longrightarrow> c \<noteq> LT \<and> c \<noteq> GT \<and> c \<noteq> DQ \<and> c \<noteq> SQ"
  unfolding replace_g_def special_re_def replace_from_class
  using escapeMap_chars [of "[c]"] escapeMap_chars by (auto simp: chr_eq_def split: if_splits)

lemma spaces_step: "set (replace_g False spaces_re (\<lambda>m. js '' '') s) \<subseteq> set s \<union> {0x20}"
proof -
  have "\<forall>m. set ((\<lambda>m. js '' '') m) \<subseteq> {0x20 :: jschar}"
    by (simp add: js_def ch_def)
  from replace_from_chars [OF this] show ?thesis
    by (simp add: replace_g_def)
qed

lemma trim_chars: "set (trim s) \<subseteq> set s"
proof -
  have "set (dropWhile isWhiteSpace (rev (dropWhile isWhiteSpace s))) \<subseteq> set (rev (dropWhile isWhiteSpace s))"
    by (rule set_dropWhileD [THEN subsetI])
  also have "\<dots> \<subseteq> set s"
    by (auto dest: set_dropWhileD)
  finally show ?thesis by (simp add: trim_def)
qed

lemma control_step: "set (replace_g False control_re del s) = {c \<in> set s. \<not> isControl c}"
  unfolding replace_g_def control_re_def replace_from_class
  by (auto simp: chr_eq_def isControl_def del_def split: if_splits)

lemma sanitize_string_safe:
  assumes "c \<in> set (sanitize_string s)"
  shows "c \<noteq> LT \<and> c \<noteq> GT \<and> c \<noteq> DQ \<and> c \<noteq> SQ \<and> \<not> isControl c"
proof -
  let ?e = "strip_markup (trim s)"
  let ?w = "replace_g False spaces_re (\<lambda>m. js '' '') ?e"
  from assms have c: "c \<in> set (trim ?w)" "\<not> isControl c"
    by (simp_all add: sanitize_string_def control_step)
  from c(1) trim_chars have "c \<in> set ?w" by blast
  with spaces_step have "c \<in> set ?e \<or> c = 0x20" by blast
  then have "c \<noteq> LT \<and> c \<noteq> GT \<and> c \<noteq> DQ \<and> c \<noteq> SQ"
  proof
    assume "c \<in> set ?e"
    then show ?thesis
      unfolding strip_markup_def comp_def by (rule escape_step)
  next
    assume "c = 0x20"
    then show ?thesis
      by (simp add: LT_def GT_def DQ_def SQ_def ch_def)
  qed
  with c(2) show ?thesis by simp
qed

section \<open>Strings the sanitizer leaves alone\<close>














lemma space_string: "js '' '' = [SP]"
  by (simp add: js_def SP_def)



section \<open>The lines of the example files\<close>

lemma import_example_lines:
  "nonblank_lines (js ''[x] Buy milk'' @ [0x0A] @ js ''[ ] Walk dog'' @ [0x0A])
     = [js ''[x] Buy milk'', js ''[ ] Walk dog'']"
  by code_simp

lemma import_example_todos:
  "List.map_filter import_line [js ''[x] Buy milk'', js ''[ ] Walk dog'']
     = [\<lparr>todo_text = js ''Buy milk'', todo_done = True\<rparr>, \<lparr>todo_text = js ''Walk dog'', todo_done = False\<rparr>]"
  by code_simp

section \<open>The size of a serialized text\<close>

lemma quoteUnit_nonempty: "1 \<le> length (quoteUnit c)"
  by (simp add: quoteUnit_def unicodeEscape_def)

lemma length_quoteBody: "length s \<le> length (quoteBody s)"
proof (induction s rule: quoteBody.induct)
  case 1
  show ?case by simp
next
  case (2 c)
  show ?case using quoteUnit_nonempty [of c] by simp
next
  case (3 c d cs)
  then show ?case using quoteUnit_nonempty [of c] by auto
qed

lemma length_stringify_single: "length (todo_text t) \<le> length (JSON_stringify [t])"
  using length_quoteBody [of "todo_text t"]
  by (simp add: JSON_stringify_def stringify_todo_def quoteJSONString_def)

lemma newline_at_LF: "rexec False newline_re (p, 0x0A # s) = Some (Some 0x0A, s)"
  by (simp add: rexec_def newline_re_def seqs_def Opt_def chr_eq_def)

lemma newline_at_other: "c \<noteq> 0x0A \<Longrightarrow> c \<noteq> 0x0D \<Longrightarrow> rexec False newline_re (p, c # s) = None"
  by (simp add: rexec_def newline_re_def seqs_def Opt_def chr_eq_def)

lemma split_from_many:
  "split_from newline_re p [] (concat (replicate n [ch CHR ''a'', 0x0A])) = replicate n [ch CHR ''a''] @ [[]]"
proof (induction n arbitrary: p)
  case 0
  show ?case by simp
next
  case (Suc n)
  have a: "ch CHR ''a'' \<noteq> (0x0A :: jschar)" "ch CHR ''a'' \<noteq> (0x0D :: jschar)"
    by (simp_all add: ch_def)
  show ?case
    using Suc.IH a by (simp add: newline_at_LF newline_at_other)
qed

lemma nonblank_lines_many:
  "nonblank_lines (concat (replicate (Suc n) [ch CHR ''a'', 0x0A])) = replicate (Suc n) [ch CHR ''a'']"
proof -
  have t: "trim [ch CHR ''a''] \<noteq> []" "trim [] = []"
    by (simp_all add: trim_def isWhiteSpace_def ch_def)
  show ?thesis
    unfolding nonblank_lines_def split_def
    using t by (simp add: split_from_many del: replicate_Suc split_from.simps)
qed

section \<open>The size of the serialized list\<close>

lemma length_quoteUnit: "length (quoteUnit c) \<le> 6"
  by (simp add: quoteUnit_def unicodeEscape_def)

lemma length_quoteBody_le: "length (quoteBody s) \<le> 6 * length s"
proof (induction s rule: quoteBody.induct)
  case 1
  show ?case by simp
next
  case (2 c)
  show ?case using length_quoteUnit [of c] by simp
next
  case (3 c d cs)
  then show ?case using length_quoteUnit [of c] by auto
qed

lemma length_quoteJSONString: "length (quoteJSONString s) \<le> 6 * length s + 2"
  using length_quoteBody_le [of s] by (simp add: quoteJSONString_def)

lemma length_keys:
  "length (quoteJSONString (js ''text'')) = 6" "length (quoteJSONString (js ''done'')) = 6"
  by code_simp+

lemma length_stringify_todo: "length (stringify_todo t) \<le> 6 * length (todo_text t) + 27"
proof -
  have "length (stringify_todo t) \<le> 20 + length (quoteJSONString (todo_text t)) + 5"
    unfolding stringify_todo_def by (simp add: length_keys) (simp add: js_def)
  with length_quoteJSONString [of "todo_text t"] show ?thesis
    by simp
qed

lemma length_join:
  "(\<forall>x \<in> set xs. length x \<le> n) \<Longrightarrow> length (join sep xs) \<le> length xs * (n + length sep)"
  by (induction sep xs rule: join.induct) auto

lemma length_JSON_stringify:
  assumes "\<forall>t \<in> set ts. length (todo_text t) \<le> n"
  shows "length (JSON_stringify ts) \<le> 2 + length ts * (6 * n + 28)"
proof -
  have "\<forall>x \<in> set (map stringify_todo ts). length x \<le> 6 * n + 27"
  proof
    fix x assume "x \<in> set (map stringify_todo ts)"
    then obtain t where t: "t \<in> set ts" "x = stringify_todo t" by auto
    with assms length_stringify_todo [of t] show "length x \<le> 6 * n + 27"
      by (auto intro: order_trans)
  qed
  from length_join [OF this, of "js '',''"]
  have "length (join (js '','') (map stringify_todo ts)) \<le> length ts * (6 * n + 28)"
    by (simp add: js_def add.commute)
  then show ?thesis
    by (simp add: JSON_stringify_def) (simp add: js_def)
qed

section \<open>The operations and the invariant\<close>

lemma saveToLocal_todos_pair: "saveToLocal h a = (ok, a') \<Longrightarrow> todos a' = todos a"
  using saveToLocal_todos [of h a] by simp

lemma distinct_remove_nth: "distinct xs \<Longrightarrow> distinct (take i xs @ drop (Suc i) xs)"
  using set_take_disj_set_drop_if_distinct [of xs i "Suc i"] by simp

lemma length_remove_nth: "length (take i xs @ drop (Suc i) xs) \<le> length xs"
  by simp

lemma addTask_invariant:
  assumes "tasks_invariant h (todos a)"
  shows "tasks_invariant h (todos (addTask h input a))"
proof (cases "validateTask h a input")
  case (Inl e)
  with assms show ?thesis by (simp add: addTask_def)
next
  case (Inr s)
  then have fresh: "\<forall>t \<in> set (todos a). toLowerCase h (todo_text t) \<noteq> toLowerCase h s"
    and room: "length (todos a) < 1000"
    by (auto simp: validateTask_def Let_def list_ex_iff MAX_TASKS_def split: if_splits)
  let ?a1 = "a\<lparr>todos := todos a @ [\<lparr>todo_text = s, todo_done = False\<rparr>], unsavedChanges := True\<rparr>"
  obtain ok a' where sv: "saveToLocal h ?a1 = (ok, a')"
    by (cases "saveToLocal h ?a1")
  from saveToLocal_todos_pair [OF sv] have ts: "todos a' = todos a @ [\<lparr>todo_text = s, todo_done = False\<rparr>]"
    by simp
  show ?thesis
  proof (cases ok)
    case True
    with Inr sv ts assms fresh room show ?thesis
      by (auto simp: addTask_def tasks_invariant_def)
  next
    case False
    with Inr sv ts assms show ?thesis
      by (simp add: addTask_def)
  qed
qed

lemma deleteTask_invariant:
  assumes "tasks_invariant h (todos a)"
  shows "tasks_invariant h (todos (deleteTask h idx a))"
proof -
  let ?f = "\<lambda>t. toLowerCase h (todo_text t)"
  have "map ?f (take idx (todos a) @ drop (Suc idx) (todos a))
          = take idx (map ?f (todos a)) @ drop (Suc idx) (map ?f (todos a))"
    by (simp add: take_map drop_map)
  with assms distinct_remove_nth [of "map ?f (todos a)" idx] length_remove_nth [of idx "todos a"]
  show ?thesis
    by (simp add: deleteTask_def tasks_invariant_def del: length_append length_take length_drop)
qed

lemma toggleTask_invariant:
  assumes "tasks_invariant h (todos a)" and "toggleTask h idx a = Inr a'"
  shows "tasks_invariant h (todos a')"
proof -
  from assms(2) have idx: "idx < length (todos a)"
    and a': "todos a' = (todos a)[idx := (todos a ! idx)\<lparr>todo_done := \<not> todo_done (todos a ! idx)\<rparr>]"
    by (auto simp: toggleTask_def split: if_splits)
  have "map (\<lambda>t. toLowerCase h (todo_text t)) (todos a') = map (\<lambda>t. toLowerCase h (todo_text t)) (todos a)"
    unfolding a' using idx
    by (simp add: map_update) (metis list_update_id nth_map)
  with assms(1) a' show ?thesis
    by (simp add: tasks_invariant_def)
qed

lemma length_map_filter: "length (List.map_filter f xs) \<le> length xs"
  by (simp add: List.map_filter_def)

lemma importTasks_length:
  assumes "length (todos a) \<le> 1000"
  shows "length (todos (importTasks h fo a)) \<le> 1000"
proof -
  have "length (todos (onload h content a)) \<le> 1000" for content
    using assms length_map_filter [of import_line "nonblank_lines content"]
    by (simp add: onload_def Let_def MAX_TASKS_def)
  with assms show ?thesis
    by (simp add: importTasks_def split: option.splits)
qed

lemma loadFromLocal_length: "length (fst (loadFromLocal h a)) \<le> 1000"
  by (simp add: loadFromLocal_def MAX_TASKS_def split: option.splits)

lemma onload_todos:
  "todos (onload h content a) =
     (if length (nonblank_lines content) > 1000 \<or> List.map_filter import_line (nonblank_lines content) = []
      then todos a else List.map_filter import_line (nonblank_lines content))"
  by (simp add: onload_def Let_def MAX_TASKS_def)

lemma addTask_todos:
  "todos (addTask h input a) =
     (case validateTask h a input of
        Inl e \<Rightarrow> todos a
      | Inr s \<Rightarrow>
          if fst (saveToLocal h (a\<lparr>todos := todos a @ [\<lparr>todo_text = s, todo_done = False\<rparr>], unsavedChanges := True\<rparr>))
          then todos a @ [\<lparr>todo_text = s, todo_done = False\<rparr>] else todos a)"
proof (cases "validateTask h a input")
  case (Inl e)
  then show ?thesis by (simp add: addTask_def)
next
  case (Inr s)
  let ?a1 = "a\<lparr>todos := todos a @ [\<lparr>todo_text = s, todo_done = False\<rparr>], unsavedChanges := True\<rparr>"
  obtain ok a' where sv: "saveToLocal h ?a1 = (ok, a')"
    by (cases "saveToLocal h ?a1")
  from saveToLocal_todos_pair [OF sv] Inr sv show ?thesis
    by (simp add: addTask_def)
qed

lemma dup_content_lines: "nonblank_lines dup_content = [js ''a'', js ''A'']"
  by code_simp

lemma dup_content_todos: "List.map_filter import_line [js ''a'', js ''A'']
      = [\<lparr>todo_text = js ''a'', todo_done = False\<rparr>, \<lparr>todo_text = js ''A'', todo_done = False\<rparr>]"
  by code_simp

lemma dup_lower: "toLowerCase host0 (js ''a'') = toLowerCase host0 (js ''A'')"
  by code_simp

lemma text_plain_type: "includes_str (js ''text/plain'') (js ''text'')"
  by code_simp

lemma loadFromLocal_array:
  "localStorage a STORAGE_KEY = Some d \<Longrightarrow> d \<noteq> [] \<Longrightarrow> JSON_parse h d = Some (JArr items) \<Longrightarrow>
   loadFromLocal h a =
     (take 1000 (filter (\<lambda>t. todo_text t \<noteq> [])
        (map coerce (filter (\<lambda>item. truthy item \<and> isObject item) items))), a)"
  by (simp add: loadFromLocal_def MAX_TASKS_def)

lemma JSON_stringify_nonempty: "JSON_stringify ts \<noteq> []"
  by (simp add: JSON_stringify_def js_def)

section \<open>Loading what was saved\<close>

lemma sanitize_string_Nil: "sanitize_string [] = []"
  by code_simp

lemma coerce_todo_value: "coerce (todo_value t) = resanitize t"
proof -
  have k: "js ''done'' \<noteq> js ''text''"
    by (simp add: js_def ch_def)
  have "getProp (todo_value t) (js ''text'') = JStr (todo_text t)"
    "getProp (todo_value t) (js ''done'') = JBool (todo_done t)"
    using k by (simp_all add: todo_value_def)
  then show ?thesis
    by (simp add: coerce_def resanitize_def sanitize_string_Nil)
qed

lemma objects_todo_values:
  "filter (\<lambda>item. truthy item \<and> isObject item) (map todo_value ts) = map todo_value ts"
  by (induction ts) (simp_all add: todo_value_def)

lemma loadFromLocal_saved:
  assumes "localStorage a STORAGE_KEY = Some (JSON_stringify ts)"
    and "JSON_parse h (JSON_stringify ts) = Some (todos_value ts)"
  shows "fst (loadFromLocal h a) = take 1000 (filter (\<lambda>t. todo_text t \<noteq> []) (map resanitize ts))"
proof -
  from assms(2) have "JSON_parse h (JSON_stringify ts) = Some (JArr (map todo_value ts))"
    by (simp add: todos_value_def)
  from loadFromLocal_array [OF assms(1) JSON_stringify_nonempty this] show ?thesis
    by (simp add: objects_todo_values coerce_todo_value comp_def)
qed

lemma saveToLocal_writes:
  assumes "autosave a" "length (JSON_stringify (todos a)) \<le> 5 * 1024 * 1024"
    and "\<not> quota_exceeded h (localStorage a) STORAGE_KEY (JSON_stringify (todos a))"
  shows "saveToLocal h a
           = (True, a\<lparr>localStorage := (localStorage a)(STORAGE_KEY \<mapsto> JSON_stringify (todos a)),
                       unsavedChanges := False\<rparr>)"
  using assms by (simp add: saveToLocal_def Let_def setItem_def)

lemma valid_list_fits:
  assumes "length ts \<le> 1000" "\<forall>t \<in> set ts. length (todo_text t) \<le> 100"
  shows "length (JSON_stringify ts) \<le> 5 * 1024 * 1024"
proof -
  from length_JSON_stringify [OF assms(2)]
  have "length (JSON_stringify ts) \<le> 2 + length ts * 628" by simp
  also from assms(1) have "\<dots> \<le> 2 + 1000 * 628" by simp
  finally show ?thesis by simp
qed

section \<open>Strings the sanitizer leaves unchanged\<close>




lemma strip_markup_split: "strip_markup s = replace_g False special_re escapeMap (remove_markup s)"
  by (simp add: strip_markup_def remove_markup_def)



section \<open>The escaping step\<close>

lemma escape_step_entity: "replace_g False special_re escapeMap s = concat (map entity s)"
proof -
  have "(if list_ex (\<lambda>k. cls_has False k c) [One LT, One GT, One DQ, One SQ, One AMP] \<noteq> False
         then escapeMap [c] else [c]) = entity c" for c
    by (simp add: chr_eq_def escapeMap_def entity_def LT_def GT_def DQ_def SQ_def AMP_def ch_def)
  then show ?thesis
    unfolding replace_g_def special_re_def replace_from_class by simp
qed

lemma control_step_filter: "replace_g False control_re del s = filter (\<lambda>c. \<not> isControl c) s"
proof -
  have "(if list_ex (\<lambda>k. cls_has False k c) [Rng 0x00 0x08, One 0x0B, One 0x0C, Rng 0x0E 0x1F, One 0x7F] \<noteq> False
         then del [c] else [c]) = (if \<not> isControl c then [c] else [])" for c
    by (auto simp: chr_eq_def isControl_def del_def)
  then show ?thesis
    unfolding replace_g_def control_re_def replace_from_class
    by (induction s) simp_all
qed

lemma visible_dropWhile: "visible (dropWhile isWhiteSpace s) = visible s"
  by (induction s) (simp_all add: visible_def)

lemma visible_rev: "visible (rev s) = rev (visible s)"
  by (simp add: visible_def rev_filter)

lemma visible_trim: "visible (trim s) = visible s"
  by (simp add: trim_def visible_rev visible_dropWhile)

lemma visible_control_step: "visible (replace_g False control_re del s) = visible s"
  by (simp add: control_step_filter visible_def conj_commute)

lemma visible_SP: "visible (SP # s) = visible s"
  by (simp add: visible_def isWhiteSpace_def SP_def ch_def)

lemma visible_spaces_from: "visible (replace_from False spaces_re (\<lambda>m. [SP]) p s) = visible s"
proof (induction "length s" arbitrary: s p rule: less_induct)
  case less
  show ?case
  proof (cases s)
    case Nil
    then show ?thesis by (simp add: rexec_spaces)
  next
    case (Cons d ds)
    show ?thesis
    proof (cases "isWhiteSpace d")
      case False
      with less.hyps [of ds "Some d"] Cons show ?thesis
        by (simp add: rexec_spaces visible_def)
    next
      case True
      from rexec_spaces(3) [OF True, of p ds] obtain q where
        q: "rexec False spaces_re (p, d # ds) = Some (q, dropWhile isWhiteSpace ds)" by auto
      have len: "length (dropWhile isWhiteSpace ds) < length (d # ds)"
        using length_dropWhile_le [of isWhiteSpace ds] by simp
      with less.hyps [of "dropWhile isWhiteSpace ds" q] Cons
      have "visible (replace_from False spaces_re (\<lambda>m. [SP]) q (dropWhile isWhiteSpace ds)) = visible ds"
        by (simp add: visible_dropWhile)
      moreover have "visible (d # ds) = visible ds"
        using True by (simp add: visible_def)
      ultimately show ?thesis
        using q len Cons by (simp add: visible_SP)
    qed
  qed
qed

lemma visible_spaces_step: "visible (replace_g False spaces_re (\<lambda>m. js '' '') s) = visible s"
  by (simp add: replace_g_def space_string visible_spaces_from)

lemma visible_sanitize_string:
  "visible (sanitize_string s) = visible (concat (map entity (remove_markup (trim s))))"
  by (simp add: sanitize_string_def visible_control_step visible_trim visible_spaces_step
        strip_markup_split escape_step_entity)

section \<open>The sanitizer on the example of the specification\<close>

text \<open>
  C3, as the code computes it: on the input \<open>a&b<c>\<close> the tag-stripping step removes
  \<open><c>\<close> before the escaping step runs, so the result is \<open>a&amp;b\<close>.
\<close>

theorem sanitize_example_actual:
  "sanitizeText (JStr (js ''a&b<c>'')) = js ''a&amp;b''"
  by code_simp

text \<open>
  C3, as stated: the result is not \<open>a&amp;b&lt;c&gt;\<close>.
\<close>

theorem sanitize_example_counterexample:
  "sanitizeText (JStr (js ''a&b<c>'')) \<noteq> js ''a&amp;b&lt;c&gt;''"
  by code_simp

section \<open>The import example\<close>

text \<open>
  C9: importing the text \<open>[x] Buy milk\n[ ] Walk dog\n\<close> replaces the task list by exactly
  the two tasks "Buy milk" (done) and "Walk dog" (not done), in this order, whatever the
  previous state and the host are: both for the handler run on the text and for
  importTasks on a text file that holds it.
\<close>

theorem import_example:
  "todos (onload h (js ''[x] Buy milk'' @ [0x0A] @ js ''[ ] Walk dog'' @ [0x0A]) a)
     = [\<lparr>todo_text = js ''Buy milk'', todo_done = True\<rparr>, \<lparr>todo_text = js ''Walk dog'', todo_done = False\<rparr>]
   \<and> todos (importTasks h (Some example_file) a)
     = [\<lparr>todo_text = js ''Buy milk'', todo_done = True\<rparr>, \<lparr>todo_text = js ''Walk dog'', todo_done = False\<rparr>]"
proof -
  have "todos (onload h (js ''[x] Buy milk'' @ [0x0A] @ js ''[ ] Walk dog'' @ [0x0A]) a)
          = List.map_filter import_line [js ''[x] Buy milk'', js ''[ ] Walk dog'']"
    unfolding onload_def import_example_lines
    by (simp add: MAX_TASKS_def Let_def import_example_todos del: map_filter_simps)
  then have r: "todos (onload h (js ''[x] Buy milk'' @ [0x0A] @ js ''[ ] Walk dog'' @ [0x0A]) a)
     = [\<lparr>todo_text = js ''Buy milk'', todo_done = True\<rparr>, \<lparr>todo_text = js ''Walk dog'', todo_done = False\<rparr>]"
    by (simp only: import_example_todos)
  then have "todos (importTasks h (Some example_file) a)
     = [\<lparr>todo_text = js ''Buy milk'', todo_done = True\<rparr>, \<lparr>todo_text = js ''Walk dog'', todo_done = False\<rparr>]"
    by (simp add: importTasks_def example_file_def ALLOWED_FILE_SIZE_def text_plain_type)
  with r show ?thesis by (rule conjI)
qed

section \<open>Validation\<close>

text \<open>
  C5: validateTask reports exactly one outcome, chosen in priority order: empty after
  sanitization, then longer than 100, then case-insensitive duplicate, then capacity (1000
  tasks already); when none of the four holds it returns the sanitized text.
\<close>

theorem validateTask_priority:
  fixes h :: host and a :: app and v :: jsvalue
  defines "s \<equiv> sanitizeText v"
  defines "dup \<equiv> (\<exists>t \<in> set (todos a). toLowerCase h (todo_text t) = toLowerCase h s)"
  shows "(s = [] \<longrightarrow> validateTask h a v = Inl EmptyTask)
       \<and> (s \<noteq> [] \<and> length s > 100 \<longrightarrow> validateTask h a v = Inl TooLong)
       \<and> (s \<noteq> [] \<and> length s \<le> 100 \<and> dup \<longrightarrow> validateTask h a v = Inl Duplicate)
       \<and> (s \<noteq> [] \<and> length s \<le> 100 \<and> \<not> dup \<and> length (todos a) \<ge> 1000 \<longrightarrow> validateTask h a v = Inl Capacity)
       \<and> (s \<noteq> [] \<and> length s \<le> 100 \<and> \<not> dup \<and> length (todos a) < 1000 \<longrightarrow> validateTask h a v = Inr s)"
  by (auto simp: s_def dup_def validateTask_def Let_def MIN_LENGTH_def MAX_LENGTH_def MAX_TASKS_def list_ex_iff)

theorem validateTask_priority_witness:
  "validateTask host0 app0 (JStr (js ''<b></b>'')) = Inl EmptyTask
   \<and> validateTask host0 app0 (JStr (replicate 101 (ch CHR ''a''))) = Inl TooLong
   \<and> validateTask host0 (app0\<lparr>todos := [\<lparr>todo_text = js ''Buy milk'', todo_done = False\<rparr>]\<rparr>)
        (JStr (js ''buy MILK'')) = Inl Duplicate
   \<and> validateTask host0 (app0\<lparr>todos := replicate 1000 \<lparr>todo_text = js ''a'', todo_done = False\<rparr>\<rparr>)
        (JStr (js ''b'')) = Inl Capacity
   \<and> validateTask host0 (app0\<lparr>todos := [\<lparr>todo_text = js ''Buy milk'', todo_done = False\<rparr>]\<rparr>)
        (JStr (js '' Walk dog '')) = Inr (js ''Walk dog'')"
proof -
  have s1: "sanitizeText (JStr (js ''<b></b>'')) = []"
    by code_simp
  have s2: "sanitizeText (JStr (replicate 101 (ch CHR ''a''))) = replicate 101 (ch CHR ''a'')"
    by code_simp
  have s3: "sanitizeText (JStr (js ''buy MILK'')) = js ''buy MILK''"
    by code_simp
  have l3: "toLowerCase host0 (js ''buy MILK'') = toLowerCase host0 (js ''Buy milk'')"
    by code_simp
  have s4: "sanitizeText (JStr (js ''b'')) = js ''b''"
    by code_simp
  have l4: "toLowerCase host0 (js ''a'') \<noteq> toLowerCase host0 (js ''b'')"
    by code_simp
  have s5: "sanitizeText (JStr (js '' Walk dog '')) = js ''Walk dog''"
    by code_simp
  have l5: "toLowerCase host0 (js ''Buy milk'') \<noteq> toLowerCase host0 (js ''Walk dog'')"
    by code_simp
  have n: "js ''buy MILK'' \<noteq> []" "js ''b'' \<noteq> []" "js ''Walk dog'' \<noteq> []"
    "length (js ''buy MILK'') \<le> 100" "length (js ''b'') \<le> 100" "length (js ''Walk dog'') \<le> 100"
    by (simp_all add: js_def)
  have r1: "validateTask host0 app0 (JStr (js ''<b></b>'')) = Inl EmptyTask"
    using validateTask_priority [where h = host0 and a = app0 and v = "JStr (js ''<b></b>'')"] s1
    by simp
  have r2: "validateTask host0 app0 (JStr (replicate 101 (ch CHR ''a''))) = Inl TooLong"
    using validateTask_priority [where h = host0 and a = app0 and v = "JStr (replicate 101 (ch CHR ''a''))"]
    unfolding s2 by simp
  have r3: "validateTask host0 (app0\<lparr>todos := [\<lparr>todo_text = js ''Buy milk'', todo_done = False\<rparr>]\<rparr>)
        (JStr (js ''buy MILK'')) = Inl Duplicate"
    using validateTask_priority [where h = host0
        and a = "app0\<lparr>todos := [\<lparr>todo_text = js ''Buy milk'', todo_done = False\<rparr>]\<rparr>"
        and v = "JStr (js ''buy MILK'')"] n l3
    unfolding s3 by simp
  have r4: "validateTask host0 (app0\<lparr>todos := replicate 1000 \<lparr>todo_text = js ''a'', todo_done = False\<rparr>\<rparr>)
        (JStr (js ''b'')) = Inl Capacity"
    using validateTask_priority [where h = host0
        and a = "app0\<lparr>todos := replicate 1000 \<lparr>todo_text = js ''a'', todo_done = False\<rparr>\<rparr>"
        and v = "JStr (js ''b'')"] n l4
    unfolding s4 by simp
  have r5: "validateTask host0 (app0\<lparr>todos := [\<lparr>todo_text = js ''Buy milk'', todo_done = False\<rparr>]\<rparr>)
        (JStr (js '' Walk dog '')) = Inr (js ''Walk dog'')"
    using validateTask_priority [where h = host0
        and a = "app0\<lparr>todos := [\<lparr>todo_text = js ''Buy milk'', todo_done = False\<rparr>]\<rparr>"
        and v = "JStr (js '' Walk dog '')"] n l5
    unfolding s5 by simp
  from r1 r2 r3 r4 r5 show ?thesis by blast
qed

section \<open>Saving\<close>

text \<open>
  C8: with persistence disabled saveToLocal returns true and leaves the state as it is. With
  persistence enabled it returns false and reports "too large" when the serialized list is
  longer than 5 MiB, returns false and reports a save failure when the write raises (the
  exception is caught: the result is a value in every case), and otherwise writes the blob,
  clears the unsaved flag and returns true. In both failure cases nothing is written.
\<close>

theorem saveToLocal_outcomes:
  fixes h :: host and a :: app
  defines "dataString \<equiv> JSON_stringify (todos a)"
  shows "(\<not> autosave a \<longrightarrow> saveToLocal h a = (True, a))
       \<and> (autosave a \<and> length dataString > 5 * 1024 * 1024 \<longrightarrow>
            saveToLocal h a = (False, a\<lparr>shown := shown a @ [DataTooLarge]\<rparr>))
       \<and> (autosave a \<and> length dataString \<le> 5 * 1024 * 1024
            \<and> quota_exceeded h (localStorage a) STORAGE_KEY dataString \<longrightarrow>
            saveToLocal h a = (False, a\<lparr>shown := shown a @ [SaveFailed]\<rparr>))
       \<and> (autosave a \<and> length dataString \<le> 5 * 1024 * 1024
            \<and> \<not> quota_exceeded h (localStorage a) STORAGE_KEY dataString \<longrightarrow>
            saveToLocal h a = (True, a\<lparr>localStorage := (localStorage a)(STORAGE_KEY \<mapsto> dataString),
                                       unsavedChanges := False\<rparr>))"
  by (simp add: dataString_def saveToLocal_def Let_def showError_def setItem_def)

theorem saveToLocal_outcomes_witness:
  "saveToLocal host0 (app0\<lparr>autosave := False\<rparr>) = (True, app0\<lparr>autosave := False\<rparr>)
   \<and> saveToLocal host0 (app0\<lparr>todos := [\<lparr>todo_text = replicate 5242881 (ch CHR ''a''), todo_done = False\<rparr>]\<rparr>)
       = (False, app0\<lparr>todos := [\<lparr>todo_text = replicate 5242881 (ch CHR ''a''), todo_done = False\<rparr>],
                      shown := [DataTooLarge]\<rparr>)
   \<and> saveToLocal (host0\<lparr>quota_exceeded := (\<lambda>st k v. True)\<rparr>) app0 = (False, app0\<lparr>shown := [SaveFailed]\<rparr>)
   \<and> saveToLocal host0 app0 = (True, app0\<lparr>localStorage := [STORAGE_KEY \<mapsto> js ''[]'']\<rparr>)"
proof -
  let ?big = "\<lparr>todo_text = replicate 5242881 (ch CHR ''a''), todo_done = False\<rparr>"
  have big: "length (JSON_stringify [?big]) > 5 * 1024 * 1024"
    using length_stringify_single [of ?big] by simp
  have small: "JSON_stringify [] = js ''[]''"
    by (simp add: JSON_stringify_def js_def)
  have len: "length (js ''[]'') \<le> 5 * 1024 * 1024"
    by (simp add: js_def)
  have r1: "saveToLocal host0 (app0\<lparr>autosave := False\<rparr>) = (True, app0\<lparr>autosave := False\<rparr>)"
    using saveToLocal_outcomes [where h = host0 and a = "app0\<lparr>autosave := False\<rparr>"]
    by (simp add: app0_def)
  have r2: "saveToLocal host0 (app0\<lparr>todos := [?big]\<rparr>)
       = (False, app0\<lparr>todos := [?big], shown := [DataTooLarge]\<rparr>)"
    using saveToLocal_outcomes [where h = host0 and a = "app0\<lparr>todos := [?big]\<rparr>"] big
    by (simp add: app0_def)
  have r3: "saveToLocal (host0\<lparr>quota_exceeded := (\<lambda>st k v. True)\<rparr>) app0 = (False, app0\<lparr>shown := [SaveFailed]\<rparr>)"
    using saveToLocal_outcomes [where h = "host0\<lparr>quota_exceeded := (\<lambda>st k v. True)\<rparr>" and a = app0] len
    by (simp add: app0_def small)
  have r4: "saveToLocal host0 app0 = (True, app0\<lparr>localStorage := [STORAGE_KEY \<mapsto> js ''[]'']\<rparr>)"
    using saveToLocal_outcomes [where h = host0 and a = app0] len
    by (simp add: app0_def host0_def small)
  from r1 r2 r3 r4 show ?thesis by blast
qed

section \<open>Import failures\<close>

text \<open>
  C6: every failure path of an import leaves the state as it was, the message log apart:
  a file larger than 1 MiB, a file with neither a text MIME type nor a .txt name, a file
  with more than 1000 non-blank lines, and a file none of whose lines yields a valid task.
  In particular the task list and the persisted blob are untouched.
\<close>

theorem import_failure_keeps_tasks:
  fixes h :: host and a :: app and f :: jsfile and content :: jsstring
  defines "accepted \<equiv> file_size f \<le> 1024 * 1024
              \<and> (includes_str (file_type f) (js ''text'') \<or> endsWith (file_name f) (js ''.txt''))"
  shows "(file_size f > 1024 * 1024 \<longrightarrow>
            importTasks h (Some f) a = a\<lparr>shown := shown a @ [FileTooLarge]\<rparr>)
       \<and> (file_size f \<le> 1024 * 1024
            \<and> \<not> includes_str (file_type f) (js ''text'') \<and> \<not> endsWith (file_name f) (js ''.txt'') \<longrightarrow>
            importTasks h (Some f) a = a\<lparr>shown := shown a @ [NotTextFile]\<rparr>)
       \<and> (accepted \<and> file_content f = Some content \<and> length (nonblank_lines content) > 1000 \<longrightarrow>
            importTasks h (Some f) a = a\<lparr>shown := shown a @ [TooManyTasks]\<rparr>)
       \<and> (accepted \<and> file_content f = Some content \<and> length (nonblank_lines content) \<le> 1000
            \<and> List.map_filter import_line (nonblank_lines content) = [] \<longrightarrow>
            importTasks h (Some f) a = a\<lparr>shown := shown a @ [NoValidTasks]\<rparr>)"
  by (auto simp: accepted_def importTasks_def onload_def Let_def showError_def
        ALLOWED_FILE_SIZE_def MAX_TASKS_def)

theorem import_failure_keeps_tasks_witness:
  "importTasks host0
     (Some \<lparr>file_size = 2097152, file_type = js ''text/plain'', file_name = js ''big.txt'',
            file_content = None\<rparr>) app1 = app1\<lparr>shown := [FileTooLarge]\<rparr>
   \<and> importTasks host0
     (Some \<lparr>file_size = 4, file_type = js ''image/png'', file_name = js ''a.png'',
            file_content = Some (js ''abcd'')\<rparr>) app1 = app1\<lparr>shown := [NotTextFile]\<rparr>
   \<and> importTasks host0
     (Some \<lparr>file_size = 2002, file_type = js ''text/plain'', file_name = js ''many.txt'',
            file_content = Some (concat (replicate 1001 [ch CHR ''a'', 0x0A]))\<rparr>) app1
       = app1\<lparr>shown := [TooManyTasks]\<rparr>
   \<and> importTasks host0
     (Some \<lparr>file_size = 9, file_type = js '''', file_name = js ''tags.txt'',
            file_content = Some (js ''<b></b>'' @ [0x0A, 0x0A])\<rparr>) app1
       = app1\<lparr>shown := [NoValidTasks]\<rparr>"
proof -
  let ?f1 = "\<lparr>file_size = 2097152, file_type = js ''text/plain'', file_name = js ''big.txt'',
            file_content = None\<rparr>"
  let ?f2 = "\<lparr>file_size = 4, file_type = js ''image/png'', file_name = js ''a.png'',
            file_content = Some (js ''abcd'')\<rparr>"
  let ?c3 = "concat (replicate 1001 [ch CHR ''a'', 0x0A])"
  let ?f3 = "\<lparr>file_size = 2002, file_type = js ''text/plain'', file_name = js ''many.txt'',
            file_content = Some ?c3\<rparr>"
  let ?c4 = "js ''<b></b>'' @ [0x0A, 0x0A]"
  let ?f4 = "\<lparr>file_size = 9, file_type = js '''', file_name = js ''tags.txt'',
            file_content = Some ?c4\<rparr>"
  have t2: "\<not> includes_str (js ''image/png'') (js ''text'')" "\<not> endsWith (js ''a.png'') (js ''.txt'')"
    by code_simp+
  have t3: "includes_str (js ''text/plain'') (js ''text'')"
    by code_simp
  have t4: "endsWith (js ''tags.txt'') (js ''.txt'')"
    by code_simp
  have "length (nonblank_lines (concat (replicate (Suc 1000) [ch CHR ''a'', 0x0A]))) = Suc 1000"
    unfolding nonblank_lines_many by (simp del: replicate_Suc)
  then have l3: "length (nonblank_lines ?c3) = 1001"
    by (simp del: replicate_Suc)
  have l4: "nonblank_lines ?c4 = [js ''<b></b>'']"
    by code_simp
  have v4: "List.map_filter import_line [js ''<b></b>''] = []"
    by code_simp
  have r1: "importTasks host0 (Some ?f1) app1 = app1\<lparr>shown := [FileTooLarge]\<rparr>"
    using import_failure_keeps_tasks [where h = host0 and a = app1 and f = ?f1]
    by (simp add: app1_def app0_def)
  have r2: "importTasks host0 (Some ?f2) app1 = app1\<lparr>shown := [NotTextFile]\<rparr>"
    using import_failure_keeps_tasks [where h = host0 and a = app1 and f = ?f2] t2
    by (simp add: app1_def app0_def)
  have r3: "importTasks host0 (Some ?f3) app1 = app1\<lparr>shown := [TooManyTasks]\<rparr>"
    using import_failure_keeps_tasks [where h = host0 and a = app1 and f = ?f3 and content = ?c3] t3 l3
    by (simp add: app1_def app0_def)
  have r4: "importTasks host0 (Some ?f4) app1 = app1\<lparr>shown := [NoValidTasks]\<rparr>"
    using import_failure_keeps_tasks [where h = host0 and a = app1 and f = ?f4 and content = ?c4] t4 l4 v4
    by (simp add: app1_def app0_def)
  from r1 r2 r3 r4 show ?thesis by blast
qed

section \<open>Loading\<close>

text \<open>
  C7, as the code behaves: loadFromLocal returns the empty list silently when the blob is
  absent or is the empty string; it reports the failure and returns the empty list when a
  non-empty blob is rejected by JSON.parse or parses to something that is not an array;
  otherwise the entries of the array that are not objects are dropped, every remaining
  entry is coerced (done to a boolean, text to the sanitized string, to the empty string
  when it is missing or not a string), the records whose text is empty are dropped and the
  first 1000 of the rest are returned.
\<close>

theorem loadFromLocal_outcomes:
  fixes h :: host and a :: app
  defines "blob \<equiv> localStorage a STORAGE_KEY"
  shows "(blob = None \<or> blob = Some [] \<longrightarrow> loadFromLocal h a = ([], a))
       \<and> (blob = Some d \<and> d \<noteq> [] \<and> JSON_parse h d = None \<longrightarrow>
            loadFromLocal h a = ([], a\<lparr>shown := shown a @ [LoadFailed]\<rparr>))
       \<and> (blob = Some d \<and> d \<noteq> [] \<and> JSON_parse h d = Some v \<and> \<not> isArray v \<longrightarrow>
            loadFromLocal h a = ([], a\<lparr>shown := shown a @ [LoadFailed]\<rparr>))
       \<and> (blob = Some d \<and> d \<noteq> [] \<and> JSON_parse h d = Some (JArr items) \<longrightarrow>
            loadFromLocal h a =
              (take 1000 (filter (\<lambda>t. todo_text t \<noteq> [])
                 (map coerce (filter (\<lambda>item. truthy item \<and> isObject item) items))), a))
       \<and> todo_done (coerce item) = truthy (getProp item (js ''done''))
       \<and> (getProp item (js ''text'') = JStr s \<longrightarrow> todo_text (coerce item) = sanitize_string s)
       \<and> ((\<forall>s. getProp item (js ''text'') \<noteq> JStr s) \<longrightarrow> todo_text (coerce item) = [])"
proof -
  have e: "sanitize_string [] = []"
    by code_simp
  have c: "(\<forall>s. getProp item (js ''text'') \<noteq> JStr s) \<longrightarrow> todo_text (coerce item) = []"
    by (cases "getProp item (js ''text'')") (simp_all add: coerce_def e)
  have d: "getProp item (js ''text'') = JStr s \<longrightarrow> todo_text (coerce item) = sanitize_string s"
    by (cases "s = []") (simp_all add: coerce_def e)
  show ?thesis
    using c d by (auto simp: blob_def loadFromLocal_def showError_def MAX_TASKS_def coerce_def)
qed

theorem loadFromLocal_outcomes_witness:
  "loadFromLocal host0 app0 = ([], app0)
   \<and> loadFromLocal host0 (app0\<lparr>localStorage := [STORAGE_KEY \<mapsto> js ''not-an-array'']\<rparr>)
       = ([], app0\<lparr>localStorage := [STORAGE_KEY \<mapsto> js ''not-an-array''], shown := [LoadFailed]\<rparr>)
   \<and> loadFromLocal (host0\<lparr>JSON_parse := [js ''{}'' \<mapsto> JObj []]\<rparr>)
         (app0\<lparr>localStorage := [STORAGE_KEY \<mapsto> js ''{}'']\<rparr>)
       = ([], app0\<lparr>localStorage := [STORAGE_KEY \<mapsto> js ''{}''], shown := [LoadFailed]\<rparr>)
   \<and> loadFromLocal (host0\<lparr>JSON_parse := [blob_text \<mapsto> JArr blob_items]\<rparr>)
         (app0\<lparr>localStorage := [STORAGE_KEY \<mapsto> blob_text]\<rparr>)
       = ([\<lparr>todo_text = js ''a&amp;b'', todo_done = True\<rparr>, \<lparr>todo_text = js ''Walk dog'', todo_done = False\<rparr>],
          app0\<lparr>localStorage := [STORAGE_KEY \<mapsto> blob_text]\<rparr>)
   \<and> todo_done (coerce (JObj [(js ''done'', JStr (js ''no''))])) = True
   \<and> todo_text (coerce (JObj [(js ''text'', JStr (js ''<i>x</i>''))])) = js ''x''
   \<and> todo_text (coerce (JObj [(js ''text'', JNum 5)])) = []"
proof -
  have ne: "js ''not-an-array'' \<noteq> []" "js ''{}'' \<noteq> []" "blob_text \<noteq> []"
    by (simp_all add: js_def blob_text_def jsq_def)
  have items: "take 1000 (filter (\<lambda>t. todo_text t \<noteq> [])
                 (map coerce (filter (\<lambda>item. truthy item \<and> isObject item) blob_items)))
      = [\<lparr>todo_text = js ''a&amp;b'', todo_done = True\<rparr>, \<lparr>todo_text = js ''Walk dog'', todo_done = False\<rparr>]"
    by code_simp
  have p1: "getProp (JObj [(js ''done'', JStr (js ''no''))]) (js ''done'') = JStr (js ''no'')"
    by code_simp
  have p2: "getProp (JObj [(js ''text'', JStr (js ''<i>x</i>''))]) (js ''text'') = JStr (js ''<i>x</i>'')"
    by code_simp
  have p3: "getProp (JObj [(js ''text'', JNum 5)]) (js ''text'') = JNum 5"
    by code_simp
  have s2: "sanitize_string (js ''<i>x</i>'') = js ''x''"
    by code_simp
  have r1: "loadFromLocal host0 app0 = ([], app0)"
    using loadFromLocal_outcomes [where h = host0 and a = app0]
    by (simp add: app0_def)
  have r2: "loadFromLocal host0 (app0\<lparr>localStorage := [STORAGE_KEY \<mapsto> js ''not-an-array'']\<rparr>)
       = ([], app0\<lparr>localStorage := [STORAGE_KEY \<mapsto> js ''not-an-array''], shown := [LoadFailed]\<rparr>)"
    using loadFromLocal_outcomes [where h = host0
        and a = "app0\<lparr>localStorage := [STORAGE_KEY \<mapsto> js ''not-an-array'']\<rparr>"
        and d = "js ''not-an-array''"] ne
    by (simp add: app0_def host0_def)
  have r3: "loadFromLocal (host0\<lparr>JSON_parse := [js ''{}'' \<mapsto> JObj []]\<rparr>)
         (app0\<lparr>localStorage := [STORAGE_KEY \<mapsto> js ''{}'']\<rparr>)
       = ([], app0\<lparr>localStorage := [STORAGE_KEY \<mapsto> js ''{}''], shown := [LoadFailed]\<rparr>)"
    using loadFromLocal_outcomes [where h = "host0\<lparr>JSON_parse := [js ''{}'' \<mapsto> JObj []]\<rparr>"
        and a = "app0\<lparr>localStorage := [STORAGE_KEY \<mapsto> js ''{}'']\<rparr>"
        and d = "js ''{}''" and v = "JObj []"] ne
    by (simp add: app0_def host0_def)
  have r4: "loadFromLocal (host0\<lparr>JSON_parse := [blob_text \<mapsto> JArr blob_items]\<rparr>)
         (app0\<lparr>localStorage := [STORAGE_KEY \<mapsto> blob_text]\<rparr>)
       = ([\<lparr>todo_text = js ''a&amp;b'', todo_done = True\<rparr>, \<lparr>todo_text = js ''Walk dog'', todo_done = False\<rparr>],
          app0\<lparr>localStorage := [STORAGE_KEY \<mapsto> blob_text]\<rparr>)"
    using loadFromLocal_outcomes [where h = "host0\<lparr>JSON_parse := [blob_text \<mapsto> JArr blob_items]\<rparr>"
        and a = "app0\<lparr>localStorage := [STORAGE_KEY \<mapsto> blob_text]\<rparr>"
        and d = "blob_text" and items = blob_items] ne
    unfolding items
    by (simp add: app0_def host0_def)
  have r5: "todo_done (coerce (JObj [(js ''done'', JStr (js ''no''))])) = True"
    using loadFromLocal_outcomes [where item = "JObj [(js ''done'', JStr (js ''no''))]"] p1
    by (simp add: js_def)
  have r6: "todo_text (coerce (JObj [(js ''text'', JStr (js ''<i>x</i>''))])) = js ''x''"
    using loadFromLocal_outcomes [where item = "JObj [(js ''text'', JStr (js ''<i>x</i>''))]"
        and s = "js ''<i>x</i>''"] p2 s2
    by simp
  have r7: "todo_text (coerce (JObj [(js ''text'', JNum 5)])) = []"
    using loadFromLocal_outcomes [where item = "JObj [(js ''text'', JNum 5)]"] p3
    by simp
  from r1 r2 r3 r4 r5 r6 r7 show ?thesis by blast
qed

text \<open>
  C7, as stated, fails on the empty blob: the key is present, JSON.parse rejects the empty
  string, and yet nothing is reported. The guard \<open>if (!data) return []\<close> treats the empty
  string like an absent blob. Nor is anything reported for the blob \<open>[1]\<close>, an array that
  holds no task-like record: its entry is dropped silently.
\<close>

theorem load_empty_blob_counterexample:
  "localStorage (app0\<lparr>localStorage := [STORAGE_KEY \<mapsto> []]\<rparr>) STORAGE_KEY = Some []
   \<and> JSON_parse host0 [] = None
   \<and> loadFromLocal host0 (app0\<lparr>localStorage := [STORAGE_KEY \<mapsto> []]\<rparr>)
        \<noteq> ([], showError LoadFailed (app0\<lparr>localStorage := [STORAGE_KEY \<mapsto> []]\<rparr>))
   \<and> shown (snd (loadFromLocal host0 (app0\<lparr>localStorage := [STORAGE_KEY \<mapsto> []]\<rparr>))) = []
   \<and> loadFromLocal (host0\<lparr>JSON_parse := [js ''[1]'' \<mapsto> JArr [JNum 1]]\<rparr>)
         (app0\<lparr>localStorage := [STORAGE_KEY \<mapsto> js ''[1]'']\<rparr>)
       = ([], app0\<lparr>localStorage := [STORAGE_KEY \<mapsto> js ''[1]'']\<rparr>)"
proof -
  have "js ''[1]'' \<noteq> []"
    by (simp add: js_def)
  then show ?thesis
    by (simp add: loadFromLocal_def app0_def host0_def showError_def)
qed

section \<open>The output of the sanitizer\<close>

text \<open>
  C10: whatever value it is given, sanitizeText returns a string without any raw \<open><\<close>,
  \<open>>\<close>, double quote or single quote, and without any control character of the ranges
  00-08, 0B, 0C, 0E-1F and 7F. The special characters that survive the removal of markup
  are not dropped: the escaping step puts its HTML entity in the place of each of them and
  keeps every other code unit, and apart from white space and control characters the
  result is exactly the text so escaped.
\<close>

theorem sanitizeText_output_safe:
  "(\<forall>c \<in> set (sanitizeText v). c \<noteq> LT \<and> c \<noteq> GT \<and> c \<noteq> DQ \<and> c \<noteq> SQ \<and> \<not> isControl c)
   \<and> replace_g False special_re escapeMap s = concat (map entity s)
   \<and> strip_markup s = concat (map entity (remove_markup s))
   \<and> visible (sanitizeText (JStr s)) = visible (concat (map entity (remove_markup (trim s))))"
proof -
  have "\<forall>c \<in> set (sanitizeText v). c \<noteq> LT \<and> c \<noteq> GT \<and> c \<noteq> DQ \<and> c \<noteq> SQ \<and> \<not> isControl c"
    by (cases v) (auto dest: sanitize_string_safe)
  then show ?thesis
    by (simp add: escape_step_entity strip_markup_split visible_sanitize_string)
qed

theorem sanitizeText_output_safe_witness:
  "sanitizeText (JStr unsafe_text) = js ''it&#x27;s 1 &gt; 0 &lt; ok''
   \<and> list_all (\<lambda>c. c \<noteq> LT \<and> c \<noteq> GT \<and> c \<noteq> DQ \<and> c \<noteq> SQ \<and> \<not> isControl c) (sanitizeText (JStr unsafe_text))
   \<and> remove_markup (trim unsafe_text) = js ''it'' @ [SQ] @ js ''s 1 > 0 <'' @ [0x01, 0x7F] @ js '' ok''
   \<and> visible (sanitizeText (JStr unsafe_text)) = js ''it&#x27;s1&gt;0&lt;ok''
   \<and> replace_g False special_re escapeMap (jsq ''say `hi` & <go>'') = js ''say &quot;hi&quot; &amp; &lt;go&gt;''"
proof -
  have r: "sanitizeText (JStr unsafe_text) = js ''it&#x27;s 1 &gt; 0 &lt; ok''"
    by code_simp
  have m: "remove_markup (trim unsafe_text) = js ''it'' @ [SQ] @ js ''s 1 > 0 <'' @ [0x01, 0x7F] @ js '' ok''"
    by code_simp
  have e: "visible (concat (map entity (js ''it'' @ [SQ] @ js ''s 1 > 0 <'' @ [0x01, 0x7F] @ js '' ok'')))
             = js ''it&#x27;s1&gt;0&lt;ok''"
    by code_simp
  have q: "concat (map entity (jsq ''say `hi` & <go>'')) = js ''say &quot;hi&quot; &amp; &lt;go&gt;''"
    by code_simp
  note t = sanitizeText_output_safe [of "JStr unsafe_text" "jsq ''say `hi` & <go>''"]
  note u = sanitizeText_output_safe [of "JStr unsafe_text" unsafe_text]
  have "list_all (\<lambda>c. c \<noteq> LT \<and> c \<noteq> GT \<and> c \<noteq> DQ \<and> c \<noteq> SQ \<and> \<not> isControl c) (sanitizeText (JStr unsafe_text))"
    using t [THEN conjunct1] by (simp only: list_all_iff)
  moreover have "replace_g False special_re escapeMap (jsq ''say `hi` & <go>'') = js ''say &quot;hi&quot; &amp; &lt;go&gt;''"
    using t [THEN conjunct2, THEN conjunct1] by (simp only: q)
  moreover have "visible (sanitizeText (JStr unsafe_text)) = js ''it&#x27;s1&gt;0&lt;ok''"
    using u [THEN conjunct2, THEN conjunct2, THEN conjunct2] by (simp only: m e)
  ultimately show ?thesis
    using r m by blast
qed

section \<open>The invariant of the task list\<close>

text \<open>
  C4, as the code behaves: adding, deleting and toggling a task preserve the invariant (no
  two tasks with case-insensitively equal text, at most 1000 tasks); an import and a load
  keep the list within 1000 tasks but do not look for duplicates.
\<close>

theorem invariant_preserved:
  assumes "tasks_invariant h (todos a)"
  shows "tasks_invariant h (todos (addTask h input a))
       \<and> tasks_invariant h (todos (deleteTask h idx a))
       \<and> (case toggleTask h idx a of Inl e \<Rightarrow> True | Inr a' \<Rightarrow> tasks_invariant h (todos a'))
       \<and> length (todos (importTasks h fo a)) \<le> 1000
       \<and> length (todos (loadTodos h a)) \<le> 1000"
proof -
  have "case toggleTask h idx a of Inl e \<Rightarrow> True | Inr a' \<Rightarrow> tasks_invariant h (todos a')"
    using toggleTask_invariant [OF assms] by (cases "toggleTask h idx a") auto
  moreover have "length (todos (loadTodos h a)) \<le> 1000"
    using loadFromLocal_length [of h a] by (cases "loadFromLocal h a") (simp add: loadTodos_def)
  moreover have "length (todos (importTasks h fo a)) \<le> 1000"
    using assms by (intro importTasks_length) (simp add: tasks_invariant_def)
  ultimately show ?thesis
    using addTask_invariant [OF assms] deleteTask_invariant [OF assms] by blast
qed

theorem invariant_preserved_witness:
  "tasks_invariant host0 (todos app1)
   \<and> todos (addTask host0 (JStr (js '' Walk dog '')) app1)
       = [\<lparr>todo_text = js ''Buy milk'', todo_done = False\<rparr>, \<lparr>todo_text = js ''Walk dog'', todo_done = False\<rparr>]
   \<and> tasks_invariant host0 (todos (addTask host0 (JStr (js '' Walk dog '')) app1))
   \<and> tasks_invariant host0 (todos (addTask host0 (JStr (js ''BUY MILK'')) app1))
   \<and> tasks_invariant host0 (todos (deleteTask host0 0 app1))
   \<and> (case toggleTask host0 0 app1 of Inl e \<Rightarrow> False | Inr a' \<Rightarrow> tasks_invariant host0 (todos a'))
   \<and> length (todos (importTasks host0 (Some example_file) app1)) \<le> 1000
   \<and> length (todos (loadTodos host0 app1)) \<le> 1000"
proof -
  let ?two = "[\<lparr>todo_text = js ''Buy milk'', todo_done = False\<rparr>, \<lparr>todo_text = js ''Walk dog'', todo_done = False\<rparr>]"
  have inv: "tasks_invariant host0 (todos app1)"
    by (simp add: tasks_invariant_def app1_def app0_def)
  have v: "validateTask host0 app1 (JStr (js '' Walk dog '')) = Inr (js ''Walk dog'')"
    by code_simp
  have "length (JSON_stringify ?two) \<le> 2 + length ?two * (6 * 8 + 28)"
    by (rule length_JSON_stringify) (simp add: js_def)
  then have "fst (saveToLocal host0 (app1\<lparr>todos := ?two, unsavedChanges := True\<rparr>))"
    by (simp add: saveToLocal_def Let_def setItem_def host0_def app1_def app0_def)
  then have added: "todos (addTask host0 (JStr (js '' Walk dog '')) app1) = ?two"
    unfolding addTask_todos v by (simp add: app1_def app0_def)
  have tg: "\<exists>a'. toggleTask host0 0 app1 = Inr a'"
    by (simp add: toggleTask_def app1_def app0_def)
  have "case toggleTask host0 0 app1 of Inl e \<Rightarrow> False | Inr a' \<Rightarrow> tasks_invariant host0 (todos a')"
    using invariant_preserved [OF inv, where idx = 0] tg
    by (auto split: sum.splits)
  moreover note invariant_preserved [OF inv, where input = "JStr (js '' Walk dog '')" and idx = 0
        and fo = "Some example_file"]
  moreover note invariant_preserved [OF inv, where input = "JStr (js ''BUY MILK'')"]
  ultimately show ?thesis
    using inv added by blast
qed

text \<open>
  C4, as stated, fails for import and for load: neither looks for duplicates. Importing a
  file with the two lines \<open>a\<close> and \<open>A\<close> into the empty list, and loading a blob that holds the
  same text twice, both break the invariant.
\<close>

theorem import_duplicates_counterexample:
  "tasks_invariant host0 (todos app0)
   \<and> \<not> tasks_invariant host0 (todos (importTasks host0 (Some dup_file) app0))
   \<and> \<not> tasks_invariant host0
         (todos (loadTodos (host0\<lparr>JSON_parse := [JSON_stringify dup_todos \<mapsto> todos_value dup_todos]\<rparr>)
                   (app0\<lparr>localStorage := [STORAGE_KEY \<mapsto> JSON_stringify dup_todos]\<rparr>)))"
proof -
  let ?h = "host0\<lparr>JSON_parse := [JSON_stringify dup_todos \<mapsto> todos_value dup_todos]\<rparr>"
  let ?a = "app0\<lparr>localStorage := [STORAGE_KEY \<mapsto> JSON_stringify dup_todos]\<rparr>"
  have i0: "tasks_invariant host0 (todos app0)"
    by (simp add: tasks_invariant_def app0_def)
  have "todos (importTasks host0 (Some dup_file) app0)
      = [\<lparr>todo_text = js ''a'', todo_done = False\<rparr>, \<lparr>todo_text = js ''A'', todo_done = False\<rparr>]"
    by (simp add: importTasks_def dup_file_def ALLOWED_FILE_SIZE_def text_plain_type onload_todos dup_content_lines dup_content_todos
          del: map_filter_simps)
  with dup_lower have i1: "\<not> tasks_invariant host0 (todos (importTasks host0 (Some dup_file) app0))"
    by (simp add: tasks_invariant_def)
  have items: "take 1000 (filter (\<lambda>t. todo_text t \<noteq> [])
        (map coerce (filter (\<lambda>item. truthy item \<and> isObject item) (map todo_value dup_todos)))) = dup_todos"
    by code_simp
  have "loadFromLocal ?h ?a = (dup_todos, ?a)"
    using loadFromLocal_array [where h = ?h and a = ?a and d = "JSON_stringify dup_todos"
        and items = "map todo_value dup_todos"]
    by (simp add: JSON_stringify_nonempty todos_value_def items)
  then have "todos (loadTodos ?h ?a) = dup_todos"
    by (simp add: loadTodos_def)
  then have i2: "\<not> tasks_invariant host0 (todos (loadTodos ?h ?a))"
    by (simp add: tasks_invariant_def dup_todos_def)
  from i0 i1 i2 show ?thesis by blast
qed

section \<open>Sanitizing twice\<close>




section \<open>The round trip through the store\<close>

text \<open>
  C1: loading after saving does not return the list unchanged. The list holding the single
  task \<open>&amp;\<close> (the sanitized form of \<open>&\<close>, five characters, as addTask stores it) is
  saved successfully, JSON.parse gives back what JSON.stringify wrote, and yet the load
  returns the task \<open>&amp;amp;\<close>: loadFromLocal passes every stored text through
  sanitizeText again, which escapes the \<open>&\<close> of the entity.
\<close>

theorem load_after_save_changes_text:
  "todo_text (hd amp_todos) = sanitizeText (JStr (js ''&''))
   \<and> length amp_todos = 1 \<and> length (todo_text (hd amp_todos)) = 5
   \<and> fst (saveToLocal (host0\<lparr>JSON_parse := [JSON_stringify amp_todos \<mapsto> todos_value amp_todos]\<rparr>)
          (app0\<lparr>todos := amp_todos\<rparr>))
   \<and> fst (loadFromLocal (host0\<lparr>JSON_parse := [JSON_stringify amp_todos \<mapsto> todos_value amp_todos]\<rparr>)
            (snd (saveToLocal (host0\<lparr>JSON_parse := [JSON_stringify amp_todos \<mapsto> todos_value amp_todos]\<rparr>)
                    (app0\<lparr>todos := amp_todos\<rparr>))))
       = [\<lparr>todo_text = js ''&amp;amp;'', todo_done = False\<rparr>]
   \<and> fst (loadFromLocal (host0\<lparr>JSON_parse := [JSON_stringify amp_todos \<mapsto> todos_value amp_todos]\<rparr>)
            (snd (saveToLocal (host0\<lparr>JSON_parse := [JSON_stringify amp_todos \<mapsto> todos_value amp_todos]\<rparr>)
                    (app0\<lparr>todos := amp_todos\<rparr>))))
       \<noteq> amp_todos"
proof -
  let ?h = "host0\<lparr>JSON_parse := [JSON_stringify amp_todos \<mapsto> todos_value amp_todos]\<rparr>"
  let ?a = "app0\<lparr>todos := amp_todos\<rparr>"
  have s: "sanitize_string (js ''&'') = js ''&amp;''"
    by code_simp
  have again: "filter (\<lambda>t. todo_text t \<noteq> []) (map resanitize amp_todos)
                 = [\<lparr>todo_text = js ''&amp;amp;'', todo_done = False\<rparr>]"
    by code_simp
  have neq: "[\<lparr>todo_text = js ''&amp;amp;'', todo_done = False\<rparr>] \<noteq> amp_todos"
    by (simp add: amp_todos_def js_def)
  have "length (JSON_stringify (todos ?a)) \<le> 5 * 1024 * 1024"
    by (rule valid_list_fits) (simp_all add: amp_todos_def js_def)
  then have sv: "saveToLocal ?h ?a
      = (True, ?a\<lparr>localStorage := (localStorage ?a)(STORAGE_KEY \<mapsto> JSON_stringify (todos ?a)),
                   unsavedChanges := False\<rparr>)"
    by (intro saveToLocal_writes) (simp_all add: app0_def host0_def)
  have "fst (loadFromLocal ?h (snd (saveToLocal ?h ?a)))
          = take 1000 (filter (\<lambda>t. todo_text t \<noteq> []) (map resanitize amp_todos))"
    unfolding sv by (rule loadFromLocal_saved) simp_all
  then have ld: "fst (loadFromLocal ?h (snd (saveToLocal ?h ?a)))
          = [\<lparr>todo_text = js ''&amp;amp;'', todo_done = False\<rparr>]"
    unfolding again by simp
  have "length amp_todos = 1" "length (todo_text (hd amp_todos)) = 5"
    "todo_text (hd amp_todos) = sanitizeText (JStr (js ''&''))"
    by (simp_all add: amp_todos_def s) (simp add: js_def)
  with sv ld neq show ?thesis
    by simp
qed

end
